theory Spec2Isabelle
  imports Complex_Main "HOL-Library.Finite_Map" "HOL-Library.Word"
begin

section \<open>Errors\<close>

text \<open>
  Go \<^verbatim>\<open>error\<close> values of the repository. \<open>Errorf\<close> stands for a plain
  \<^verbatim>\<open>fmt.Errorf\<close> / driver error carrying its message; the other constructors are the
  repository's own error types (\<^verbatim>\<open>cassandra.InsertError\<close>, \<^verbatim>\<open>cassandra.QueryError\<close>,
  \<^verbatim>\<open>cassandra.OptionError\<close>, \<^verbatim>\<open>logstore.QueryError\<close>). A Go \<^verbatim>\<open>nil\<close> error is
  \<open>None\<close> of \<open>error option\<close>.
\<close>

datatype error =
    Errorf string
  | InsertError error
  | CassandraQueryError string error
  | OptionError string
  | QueryError string

fun Error :: "error \<Rightarrow> string" where
  "Error (Errorf m) = m"
| "Error (InsertError c) = ''insert failed: '' @ Error c"
| "Error (CassandraQueryError m c) = ''query failed: '' @ m @ '': '' @ Error c"
| "Error (OptionError m) = ''invalid cassandra options: '' @ m"
| "Error (QueryError m) = m"

section \<open>Cassandra options (options.go)\<close>

type_synonym ReplicationStrategy = string

definition SimpleStrategy :: ReplicationStrategy where
  "SimpleStrategy = ''SimpleStrategy''"

definition NetworkTopologyStrategy :: ReplicationStrategy where
  "NetworkTopologyStrategy = ''NetworkTopologyStrategy''"

text \<open>\<^verbatim>\<open>ReplicationStrategy.Validate\<close>: the message formats the slice of the two valid
  strategies with \<^verbatim>\<open>%s\<close>.\<close>

definition ReplicationStrategy_Validate :: "ReplicationStrategy \<Rightarrow> error option" where
  "ReplicationStrategy_Validate r =
     (if r = SimpleStrategy \<or> r = NetworkTopologyStrategy then None
      else Some (Errorf (''invalid replication strategy: must be one of ''
                          @ ''['' @ SimpleStrategy @ '' '' @ NetworkTopologyStrategy @ '']'')))"

text \<open>
  \<^verbatim>\<open>Options\<close>. Go's \<^verbatim>\<open>int\<close> fields are only compared with constants, never computed
  with, so they are integers here; \<^verbatim>\<open>ReplicationFactorMap\<close> is a finite map
  (\<^verbatim>\<open>len\<close> is the number of keys, a \<^verbatim>\<open>nil\<close> map is the empty one).
\<close>

record Options =
  Hosts :: "string list"
  CQLPort :: int
  Keyspace :: string
  LogTableName :: string
  ReplicationStrategy :: ReplicationStrategy
  ReplicationFactors :: "(string, int) fmap"
  WriteConcurrency :: int
  WriteBufferSize :: int

definition Options_Validate :: "Options \<Rightarrow> error option" where
  "Options_Validate opts =
    (if length (Hosts opts) < 1 then
       Some (OptionError ''at least one cassandra host must be given'')
     else if CQLPort opts \<le> 0 \<or> CQLPort opts > 65535 then
       Some (OptionError ''CQL port must be in range [1,65535]'')
     else if Keyspace opts = [] then
       Some (OptionError ''no keyspace given'')
     else if LogTableName opts = [] then
       Some (OptionError ''no log table name given'')
     else (case ReplicationStrategy_Validate (ReplicationStrategy opts) of
       Some err \<Rightarrow> Some (OptionError (Error err))
     | None \<Rightarrow>
       if ReplicationStrategy opts = SimpleStrategy
          \<and> fcard (fmdom (ReplicationFactors opts)) \<noteq> 1 then
         Some (OptionError ''for SimpleStrategy, one single replication factor must be given'')
       else if ReplicationStrategy opts = SimpleStrategy
          \<and> fmlookup (ReplicationFactors opts) ''cluster'' = None then
         Some (OptionError
           ''for SimpleStrategy, a replication factor with key 'cluster' is required'')
       else if ReplicationStrategy opts = NetworkTopologyStrategy
          \<and> fcard (fmdom (ReplicationFactors opts)) < 1 then
         Some (OptionError
           ''for NetworkTopologyStrategy, one replication factor must be given for each datacenter'')
       else if WriteConcurrency opts \<le> 0 then
         Some (OptionError ''WriteConcurrency must be a positive value'')
       else if WriteBufferSize opts \<le> 0 then
         Some (OptionError ''WriteBufferSize must be a positive value'')
       else None))"

text \<open>
  The constraints of the specification's option table, in its order, each with the message
  that names it. \<open>first_violated\<close> returns the message of the first constraint that
  does not hold.
\<close>

definition option_constraints :: "Options \<Rightarrow> (bool \<times> string) list" where
  "option_constraints opts =
    [ (Hosts opts \<noteq> [], ''at least one cassandra host must be given''),
      (1 \<le> CQLPort opts \<and> CQLPort opts \<le> 65535, ''CQL port must be in range [1,65535]''),
      (Keyspace opts \<noteq> [], ''no keyspace given''),
      (LogTableName opts \<noteq> [], ''no log table name given''),
      (ReplicationStrategy opts = ''SimpleStrategy''
         \<or> ReplicationStrategy opts = ''NetworkTopologyStrategy'',
       ''invalid replication strategy: must be one of [SimpleStrategy NetworkTopologyStrategy]''),
      (ReplicationStrategy opts = ''SimpleStrategy''
         \<longrightarrow> fcard (fmdom (ReplicationFactors opts)) = 1,
       ''for SimpleStrategy, one single replication factor must be given''),
      (ReplicationStrategy opts = ''SimpleStrategy''
         \<longrightarrow> ''cluster'' |\<in>| fmdom (ReplicationFactors opts),
       ''for SimpleStrategy, a replication factor with key 'cluster' is required''),
      (ReplicationStrategy opts = ''NetworkTopologyStrategy''
         \<longrightarrow> 1 \<le> fcard (fmdom (ReplicationFactors opts)),
       ''for NetworkTopologyStrategy, one replication factor must be given for each datacenter''),
      (1 \<le> WriteConcurrency opts, ''WriteConcurrency must be a positive value''),
      (1 \<le> WriteBufferSize opts, ''WriteBufferSize must be a positive value'') ]"

fun first_violated :: "(bool \<times> string) list \<Rightarrow> string option" where
  "first_violated [] = None"
| "first_violated ((ok, msg) # cs) = (if ok then first_violated cs else Some msg)"

section \<open>Time values\<close>

text \<open>
  A Go \<^verbatim>\<open>time.Time\<close> is an instant together with a pointer to a \<^verbatim>\<open>Location\<close>.
  \<open>abs_ns\<close> is the instant, in nanoseconds since Go's zero time (January 1, year 1,
  00:00:00 UTC); \<open>loc\<close> is the identity of the location pointer, with \<open>0\<close> for UTC (the
  \<^verbatim>\<open>nil\<close> location that \<^verbatim>\<open>time.Parse\<close> of a \<^verbatim>\<open>Z\<close> suffix and \<^verbatim>\<open>Time.UTC()\<close> produce).
  The methods below are those of package \<^verbatim>\<open>time\<close> that the repository calls:
  \<^verbatim>\<open>Before\<close> and \<^verbatim>\<open>IsZero\<close> look at the instant only, \<^verbatim>\<open>Add\<close> and \<^verbatim>\<open>Truncate\<close> keep
  the location, \<^verbatim>\<open>Truncate\<close> rounds the instant down to a multiple of the duration since
  the zero time, and the Go operator \<^verbatim>\<open>==\<close> on two \<^verbatim>\<open>time.Time\<close> values compares
  the instant and the location pointer, which is equality of this record. The monotonic
  clock reading is left out: \<^verbatim>\<open>Truncate\<close> strips it, and parsed times carry none. The
  range of a \<^verbatim>\<open>time.Time\<close> (hundreds of billions of years) is not bounded here.
\<close>

record Time =
  abs_ns :: int
  loc :: nat

definition Nanosecond :: int where "Nanosecond = 1"
definition Hour :: int where "Hour = 3600 * 1000000000"

definition Before :: "Time \<Rightarrow> Time \<Rightarrow> bool" where
  "Before t u = (abs_ns t < abs_ns u)"

definition IsZero :: "Time \<Rightarrow> bool" where
  "IsZero t = (abs_ns t = 0)"

definition Add :: "Time \<Rightarrow> int \<Rightarrow> Time" where
  "Add t d = t\<lparr>abs_ns := abs_ns t + d\<rparr>"

definition Truncate :: "Time \<Rightarrow> int \<Rightarrow> Time" where
  "Truncate t d = (if d \<le> 0 then t else t\<lparr>abs_ns := abs_ns t - abs_ns t mod d\<rparr>)"

section \<open>The log store API (package logstore)\<close>

record KubernetesMetadata =
  DockerID :: string
  Labels :: "(string, string) fmap"
  Host :: string
  PodName :: string
  ContainerName :: string
  PodID :: string
  Namespace :: string

text \<open>The \<^verbatim>\<open>Date\<close> field of a \<^verbatim>\<open>LogEntry\<close> (a float that no code of the repository
  reads) is left out.\<close>

record LogEntry =
  Kubernetes :: KubernetesMetadata
  Log :: string
  Stream :: string
  Time :: Time

definition LogEntry_Validate :: "LogEntry \<Rightarrow> error option" where
  "LogEntry_Validate l =
    (if Namespace (Kubernetes l) = [] then
       Some (Errorf ''log entry missing namespace field'')
     else if PodName (Kubernetes l) = [] then
       Some (Errorf ''log entry missing pod_name field'')
     else if ContainerName (Kubernetes l) = [] then
       Some (Errorf ''log entry missing container_name field'')
     else if IsZero (Time l) then
       Some (Errorf ''log entry missing time field'')
     else None)"

record LogRow =
  row_Time :: Time
  row_Log :: string

record QueryResult =
  LogRows :: "LogRow list"

record APIError =
  Message :: string
  Detail :: string

record Query =
  q_Namespace :: string
  q_PodName :: string
  q_ContainerName :: string
  StartTime :: Time
  EndTime :: Time

definition Query_Validate :: "Query \<Rightarrow> error option" where
  "Query_Validate q =
    (if q_Namespace q = [] then
       Some (QueryError ''missing query parameter: namespace'')
     else if q_PodName q = [] then
       Some (QueryError ''missing query parameter: pod_name'')
     else if q_ContainerName q = [] then
       Some (QueryError ''missing query parameter: container_name'')
     else if IsZero (StartTime q) then
       Some (QueryError ''missing query parameter: start_time'')
     else if IsZero (EndTime q) then
       Some (QueryError ''missing query parameter: end_time'')
     else if \<not> Before (StartTime q) (EndTime q) then
       Some (QueryError ''query time-interval: start_time must be earlier than end_time'')
     else None)"

text \<open>The validators' constraints as the specification lists them, each with its message.\<close>

definition log_entry_constraints :: "LogEntry \<Rightarrow> (bool \<times> string) list" where
  "log_entry_constraints l =
    [ (Namespace (Kubernetes l) \<noteq> [], ''log entry missing '' @ ''namespace'' @ '' field''),
      (PodName (Kubernetes l) \<noteq> [], ''log entry missing '' @ ''pod_name'' @ '' field''),
      (ContainerName (Kubernetes l) \<noteq> [],
         ''log entry missing '' @ ''container_name'' @ '' field''),
      (abs_ns (Time l) \<noteq> 0, ''log entry missing '' @ ''time'' @ '' field'') ]"

definition query_constraints :: "Query \<Rightarrow> (bool \<times> string) list" where
  "query_constraints q =
    [ (q_Namespace q \<noteq> [], ''missing query parameter: '' @ ''namespace''),
      (q_PodName q \<noteq> [], ''missing query parameter: '' @ ''pod_name''),
      (q_ContainerName q \<noteq> [], ''missing query parameter: '' @ ''container_name''),
      (abs_ns (StartTime q) \<noteq> 0, ''missing query parameter: '' @ ''start_time''),
      (abs_ns (EndTime q) \<noteq> 0, ''missing query parameter: '' @ ''end_time''),
      (abs_ns (StartTime q) < abs_ns (EndTime q),
         ''query time-interval: start_time must be earlier than end_time'') ]"

section \<open>The HTTP adapter (pkg/server/http.go)\<close>

text \<open>Decimal rendering of a non-negative integer, as \<^verbatim>\<open>%d\<close> prints a length.\<close>

definition digit_char :: "nat \<Rightarrow> char" where
  "digit_char d = ''0123456789'' ! d"

fun itoa :: "nat \<Rightarrow> string" where
  "itoa n = (if n < 10 then [digit_char n] else itoa (n div 10) @ [digit_char (n mod 10)])"

declare itoa.simps [simp del]

text \<open>\<^verbatim>\<open>r.URL.Query()\<close> is a \<^verbatim>\<open>url.Values\<close>: a map from a parameter name to the list of
  the values the URL gives it.\<close>

type_synonym url_values = "(string, string list) fmap"

definition getQueryParam :: "string \<Rightarrow> url_values \<Rightarrow> error + string" where
  "getQueryParam paramName vals =
    (case fmlookup vals paramName of
       None \<Rightarrow> Inl (Errorf (''missing query parameter: '' @ paramName))
     | Some paramValues \<Rightarrow>
         if length paramValues \<noteq> 1 then
           Inl (Errorf (''query parameter '' @ paramName @ '' has wrong number of values: was: ''
                        @ itoa (length paramValues) @ '', expected: '' @ itoa 1))
         else Inr (paramValues ! 0))"

text \<open>
  \<^verbatim>\<open>queryFromRequest\<close>. \<open>parse\<close> is \<^verbatim>\<open>time.Parse(time.RFC3339Nano, _)\<close> (\<open>None\<close> when it
  fails) and \<open>now\<close> is \<^verbatim>\<open>time.Now().UTC()\<close>, both of Go's library.
\<close>

definition queryFromRequest ::
  "(string \<Rightarrow> Time option) \<Rightarrow> Time \<Rightarrow> url_values \<Rightarrow> error + Query" where
  "queryFromRequest parse now vals =
    (case getQueryParam ''namespace'' vals of Inl err \<Rightarrow> Inl err | Inr namespace \<Rightarrow>
     case getQueryParam ''pod_name'' vals of Inl err \<Rightarrow> Inl err | Inr podName \<Rightarrow>
     case getQueryParam ''container_name'' vals of Inl err \<Rightarrow> Inl err | Inr containerName \<Rightarrow>
     case getQueryParam ''start_time'' vals of Inl err \<Rightarrow> Inl err | Inr startTimeStr \<Rightarrow>
     case parse startTimeStr of None \<Rightarrow> Inl (Errorf ''failed to parse start_time'')
     | Some startTime \<Rightarrow>
       (case getQueryParam ''end_time'' vals of
          Inl err \<Rightarrow>
            Inr \<lparr>q_Namespace = namespace, q_PodName = podName,
                 q_ContainerName = containerName, StartTime = startTime, EndTime = now\<rparr>
        | Inr endTimeStr \<Rightarrow>
            (case parse endTimeStr of None \<Rightarrow> Inl (Errorf ''failed to parse end_time'')
             | Some endTime \<Rightarrow>
                 Inr \<lparr>q_Namespace = namespace, q_PodName = podName,
                      q_ContainerName = containerName, StartTime = startTime,
                      EndTime = endTime\<rparr>)))"

text \<open>
  The \<^verbatim>\<open>logstore.LogStore\<close> behind the server is an interface: its \<^verbatim>\<open>Ready\<close> and
  \<^verbatim>\<open>Query\<close> methods are functions on a store state \<open>'s\<close>. The handler's result is the
  response it writes, the store calls it made, in order, and the store state it leaves.
\<close>

record 's LogStore_iface =
  store_Ready :: "'s \<Rightarrow> (bool \<times> error option) \<times> 's"
  store_Query :: "Query \<Rightarrow> 's \<Rightarrow> (error + QueryResult) \<times> 's"

datatype store_call = Call_Ready | Call_Query Query

datatype body = ErrorBody APIError | JSONBody string

record response =
  statusCode :: nat
  contentType :: string
  resp_body :: body

definition errorResponse :: "nat \<Rightarrow> APIError \<Rightarrow> response" where
  "errorResponse code errorMsg =
     \<lparr>statusCode = code, contentType = ''application/json'', resp_body = ErrorBody errorMsg\<rparr>"

text \<open>\<^verbatim>\<open>queryGetHandler\<close>; \<open>marshal\<close> is \<^verbatim>\<open>json.MarshalIndent\<close> on the query result.\<close>

definition queryGetHandler ::
  "(string \<Rightarrow> Time option) \<Rightarrow> Time \<Rightarrow> (QueryResult \<Rightarrow> error + string) \<Rightarrow>
   's LogStore_iface \<Rightarrow> url_values \<Rightarrow> 's \<Rightarrow> response \<times> store_call list \<times> 's" where
  "queryGetHandler parse now marshal store vals s =
    (case queryFromRequest parse now vals of
       Inl err \<Rightarrow>
         (errorResponse 400 \<lparr>Message = ''invalid query'', Detail = Error err\<rparr>, [], s)
     | Inr query \<Rightarrow>
       (case Query_Validate query of
          Some err \<Rightarrow>
            (errorResponse 400 \<lparr>Message = ''invalid query'', Detail = Error err\<rparr>, [], s)
        | None \<Rightarrow>
          (case store_Ready store s of
             ((_, Some err), s1) \<Rightarrow>
               (errorResponse 503
                  \<lparr>Message = ''data store is not ready'', Detail = Error err\<rparr>,
                [Call_Ready], s1)
           | ((_, None), s1) \<Rightarrow>
             (case store_Query store query s1 of
                (Inl err, s2) \<Rightarrow>
                  (errorResponse 500
                     \<lparr>Message = ''query execution error'', Detail = Error err\<rparr>,
                   [Call_Ready, Call_Query query], s2)
              | (Inr rows, s2) \<Rightarrow>
                (case marshal rows of
                   Inl err \<Rightarrow>
                     (errorResponse 500
                        \<lparr>Message = ''failed to serialize response'', Detail = Error err\<rparr>,
                      [Call_Ready, Call_Query query], s2)
                 | Inr bytes \<Rightarrow>
                     (\<lparr>statusCode = 200, contentType = ''application/json'',
                       resp_body = JSONBody bytes\<rparr>,
                      [Call_Ready, Call_Query query], s2))))))"

text \<open>The parameters that \<^verbatim>\<open>queryFromRequest\<close> requires.\<close>

definition required_params :: "string list" where
  "required_params = [''namespace'', ''pod_name'', ''container_name'', ''start_time'']"


section \<open>The query splitter (query splitter of package cassandra)\<close>

text \<open>A \<^verbatim>\<open>timePeriod\<close>: a time span with a start and an end time, both inclusive.\<close>

record timePeriod =
  p_start :: Time
  p_end :: Time

definition date :: "Time \<Rightarrow> Time" where
  "date t = Truncate t (24 * Hour)"

text \<open>
  The loop of \<^verbatim>\<open>divideByDays\<close>: \<open>dayPeriods\<close> is the slice built so far, \<open>t\<close> the loop
  variable, \<open>pend\<close> the end of the period. Each round moves \<open>date t\<close> one day closer to
  \<open>date pend\<close>, which is the termination argument.
\<close>

function dayLoop :: "timePeriod list \<Rightarrow> Time \<Rightarrow> Time \<Rightarrow> timePeriod list" where
  "dayLoop dayPeriods t pend =
     (if Before (date t) (date pend) then
        dayLoop
          (dayPeriods @
             [\<lparr>p_start = t, p_end = Add (Add (date t) (24 * Hour)) (-1 * Nanosecond)\<rparr>])
          (Add (date t) (24 * Hour)) pend
      else dayPeriods)"
  by pat_completeness auto
termination
proof (relation "measure (\<lambda>(dayPeriods, t, pend). nat (abs_ns (date pend) - abs_ns (date t)))")
  show "wf (measure (\<lambda>(dayPeriods, t, pend). nat (abs_ns (date pend) - abs_ns (date t))))"
    by simp
next
  fix dayPeriods :: "timePeriod list" and t pend :: Time
  assume b: "Before (date t) (date pend)"
  let ?D = "24 * Hour"
  have D: "?D = 86400000000000"
    by (simp add: Hour_def)
  have "(abs_ns t - abs_ns t mod ?D) mod ?D = 0"
    by (simp add: mod_diff_left_eq [symmetric])
  then have "(abs_ns t - abs_ns t mod ?D + ?D) mod ?D = 0"
    by (simp add: mod_add_left_eq [symmetric])
  then have "abs_ns (date (Add (date t) ?D)) = abs_ns (date t) + ?D"
    by (simp add: date_def Truncate_def Add_def D)
  with b show "((dayPeriods @
             [\<lparr>p_start = t, p_end = Add (Add (date t) (24 * Hour)) (-1 * Nanosecond)\<rparr>],
          Add (date t) (24 * Hour), pend), (dayPeriods, t, pend))
        \<in> measure (\<lambda>(dayPeriods, t, pend). nat (abs_ns (date pend) - abs_ns (date t)))"
    by (simp add: Before_def D)
qed

declare dayLoop.simps [simp del]

definition divideByDays :: "timePeriod \<Rightarrow> timePeriod list" where
  "divideByDays p =
     (if date (p_start p) = date (p_end p) then [p]
      else dayLoop [] (p_start p) (p_end p) @ [\<lparr>p_start = date (p_end p), p_end = p_end p\<rparr>])"

text \<open>Period \<open>p\<close> lies wholly before period \<open>q\<close>.\<close>

definition precedes :: "timePeriod \<Rightarrow> timePeriod \<Rightarrow> bool" where
  "precedes p q = (abs_ns (p_end p) < abs_ns (p_start q))"

definition Split :: "Query \<Rightarrow> Query list" where
  "Split s =
     map (\<lambda>queryDay.
            \<lparr>q_Namespace = q_Namespace s, q_PodName = q_PodName s,
             q_ContainerName = q_ContainerName s,
             StartTime = p_start queryDay, EndTime = p_end queryDay\<rparr>)
         (divideByDays \<lparr>p_start = StartTime s, p_end = EndTime s\<rparr>)"

section \<open>The Cassandra log store (logstore.go)\<close>

text \<open>
  Values passed to and returned by the driver (Go's \<^verbatim>\<open>interface{}\<close>): the store passes
  strings, times and the label map; a result row maps column names to such values.
  A call either returns or panics (a failed type assertion, a channel closed twice).
\<close>

datatype cqlValue = VText string | VTime Time | VLabels "(string, string) fmap" | VNil

type_synonym CQLRow = "(string, cqlValue) fmap"

datatype 'a outcome = Returned 'a | Panicked string

definition logQueryStatement :: "Options \<Rightarrow> string" where
  "logQueryStatement opts =
     ''SELECT time, message '' @
     ''FROM '' @ Keyspace opts @ ''.'' @ LogTableName opts @ '' WHERE'' @
     ''(namespace=?) AND '' @
     ''(pod_name=?) AND '' @
     ''(container_name=?) AND '' @
     ''(date=?) AND '' @
     ''(time >= ?) AND '' @
     ''(time <= ?) '' @
     ''ORDER BY time ASC''"

text \<open>The conversion loop of \<^verbatim>\<open>executeQuery\<close>: both type assertions panic on a column
  that is missing or of another type.\<close>

fun convertRows :: "CQLRow list \<Rightarrow> LogRow list outcome" where
  "convertRows [] = Returned []"
| "convertRows (logRow # results) =
     (case fmlookup logRow ''time'' of
        Some (VTime time) \<Rightarrow>
          (case fmlookup logRow ''message'' of
             Some (VText log_text) \<Rightarrow>
               (case convertRows results of
                  Returned logRows \<Rightarrow> Returned (\<lparr>row_Time = time, row_Log = log_text\<rparr> # logRows)
                | Panicked m \<Rightarrow> Panicked m)
           | _ \<Rightarrow> Panicked ''interface conversion: interface {} is not string'')
      | _ \<Rightarrow> Panicked ''interface conversion: interface {} is not time.Time'')"

text \<open>
  \<^verbatim>\<open>executeQuery\<close>. \<open>fmtDate\<close> is \<^verbatim>\<open>Time.Format("2006-01-02")\<close> of Go's library and
  \<open>drvQuery\<close> the \<^verbatim>\<open>Query\<close> method of the \<^verbatim>\<open>Driver\<close> interface, a function on the
  driver's state \<open>'d\<close>.
\<close>

type_synonym 'd driver_query =
  "'d \<Rightarrow> string \<Rightarrow> cqlValue list \<Rightarrow> (error + CQLRow list) \<times> 'd"

definition executeQuery ::
  "(Time \<Rightarrow> string) \<Rightarrow> 'd driver_query \<Rightarrow> Options \<Rightarrow> Query \<Rightarrow> 'd
     \<Rightarrow> (error + LogRow list) outcome \<times> 'd" where
  "executeQuery fmtDate drvQuery opts query d =
     (let date = fmtDate (StartTime query) in
      case drvQuery d (logQueryStatement opts)
             [VText (q_Namespace query), VText (q_PodName query),
              VText (q_ContainerName query), VText date,
              VTime (StartTime query), VTime (EndTime query)] of
        (Inl err, d') \<Rightarrow> (Returned (Inl err), d')
      | (Inr results, d') \<Rightarrow>
          (case convertRows results of
             Returned logRows \<Rightarrow> (Returned (Inr logRows), d')
           | Panicked m \<Rightarrow> (Panicked m, d')))"

text \<open>The loop of \<^verbatim>\<open>LogStore.Query\<close> over the sub-queries, \<open>logRows\<close> the rows so far.\<close>

fun querySubQueries ::
  "(Time \<Rightarrow> string) \<Rightarrow> 'd driver_query \<Rightarrow> Options \<Rightarrow> LogRow list \<Rightarrow> Query list \<Rightarrow> 'd
     \<Rightarrow> (error + QueryResult) outcome \<times> 'd" where
  "querySubQueries fmtDate drvQuery opts logRows [] d =
     (Returned (Inr \<lparr>LogRows = logRows\<rparr>), d)"
| "querySubQueries fmtDate drvQuery opts logRows (subQuery # subQueries) d =
     (case executeQuery fmtDate drvQuery opts subQuery d of
        (Panicked m, d') \<Rightarrow> (Panicked m, d')
      | (Returned (Inl err), d') \<Rightarrow>
          (Returned (Inl (CassandraQueryError ''query execution'' err)), d')
      | (Returned (Inr rows), d') \<Rightarrow>
          querySubQueries fmtDate drvQuery opts (logRows @ rows) subQueries d')"

definition LogStore_Query ::
  "(Time \<Rightarrow> string) \<Rightarrow> 'd driver_query \<Rightarrow> Options \<Rightarrow> Query \<Rightarrow> 'd
     \<Rightarrow> (error + QueryResult) outcome \<times> 'd" where
  "LogStore_Query fmtDate drvQuery opts query d =
     querySubQueries fmtDate drvQuery opts [] (Split query) d"

text \<open>
  The answers of the driver to a list of sub-queries asked one after the other from the
  driver state \<open>d\<close>: what \<^verbatim>\<open>c.driver.Query\<close> returns at each of them, an error or rows,
  every call made in the state that the call before it left. No answer is asked of the
  driver in any other state.
\<close>

fun driver_answers ::
  "(Time \<Rightarrow> string) \<Rightarrow> 'd driver_query \<Rightarrow> Options \<Rightarrow> Query list \<Rightarrow> 'd
     \<Rightarrow> (error + CQLRow list) list \<times> 'd" where
  "driver_answers fmtDate drvQuery opts [] d = ([], d)"
| "driver_answers fmtDate drvQuery opts (sq # sqs) d =
     (case drvQuery d (logQueryStatement opts)
             [VText (q_Namespace sq), VText (q_PodName sq), VText (q_ContainerName sq),
              VText (fmtDate (StartTime sq)), VTime (StartTime sq), VTime (EndTime sq)] of
        (answer, d') \<Rightarrow>
          (case driver_answers fmtDate drvQuery opts sqs d' of
             (answers, d'') \<Rightarrow> (answer # answers, d'')))"

text \<open>
  What it means for an answer to a sub-query to be good: it is no error, its rows carry
  a \<open>time\<close> and a \<open>message\<close> column, and their timestamps lie within the window \<open>[s, e]\<close>
  of the sub-query and ascend.
\<close>

definition row_instant :: "CQLRow \<Rightarrow> int" where
  "row_instant r = (case fmlookup r ''time'' of Some (VTime t) \<Rightarrow> abs_ns t | _ \<Rightarrow> 0)"

definition row_in_window :: "Time \<Rightarrow> Time \<Rightarrow> CQLRow \<Rightarrow> bool" where
  "row_in_window s e r =
     (case fmlookup r ''time'' of
        Some (VTime t) \<Rightarrow>
          (case fmlookup r ''message'' of
             Some (VText m) \<Rightarrow> abs_ns s \<le> abs_ns t \<and> abs_ns t \<le> abs_ns e
           | _ \<Rightarrow> False)
      | _ \<Rightarrow> False)"

definition rows_in_window :: "Time \<Rightarrow> Time \<Rightarrow> CQLRow list \<Rightarrow> bool" where
  "rows_in_window s e rows = (list_all (row_in_window s e) rows \<and> sorted (map row_instant rows))"

definition answer_in_window :: "Query \<Rightarrow> error + CQLRow list \<Rightarrow> bool" where
  "answer_in_window sq answer =
     (case answer of
        Inl err \<Rightarrow> False
      | Inr rows \<Rightarrow> rows_in_window (StartTime sq) (EndTime sq) rows)"

text \<open>
  The rows of an answer, and the log row that a row of the driver stands for: its \<open>time\<close>
  and its \<open>message\<close>, if it has both.
\<close>

definition answer_rows :: "error + CQLRow list \<Rightarrow> CQLRow list" where
  "answer_rows answer = (case answer of Inl err \<Rightarrow> [] | Inr rows \<Rightarrow> rows)"

definition asLogRow :: "CQLRow \<Rightarrow> LogRow option" where
  "asLogRow r =
     (case fmlookup r ''time'' of
        Some (VTime t) \<Rightarrow>
          (case fmlookup r ''message'' of
             Some (VText m) \<Rightarrow> Some \<lparr>row_Time = t, row_Log = m\<rparr>
           | _ \<Rightarrow> None)
      | _ \<Rightarrow> None)"

text \<open>The window of sub-query \<open>a\<close> ends before that of sub-query \<open>b\<close> starts.\<close>

definition window_before :: "Query \<Rightarrow> Query \<Rightarrow> bool" where
  "window_before a b = (abs_ns (EndTime a) < abs_ns (StartTime b))"

section \<open>The metrics middleware (metrics middleware of package server)\<close>

record MetricDimensions =
  Method :: string
  Path :: string
  StatusCode :: int

text \<open>
  The three metric maps. \<^verbatim>\<open>int64\<close> counters are 64-bit words. The values of
  \<^verbatim>\<open>float64\<close> are a type parameter \<open>'f\<close>, and the float operations that
  \<^verbatim>\<open>Intercept\<close> uses are passed in: the constant \<^verbatim>\<open>0\<close>, addition, division and the
  conversion \<^verbatim>\<open>float64(_)\<close> of an \<^verbatim>\<open>int64\<close>. Nothing is assumed about them.
\<close>

record 'f float_ops =
  fzero :: 'f
  fadd :: "'f \<Rightarrow> 'f \<Rightarrow> 'f"
  fdiv :: "'f \<Rightarrow> 'f \<Rightarrow> 'f"
  of_int64 :: "64 word \<Rightarrow> 'f"

record 'f MetricsMiddleware =
  TotalRequests :: "MetricDimensions \<rightharpoonup> 64 word"
  SumResponseTime :: "MetricDimensions \<rightharpoonup> 'f"
  AvgResponseTime :: "MetricDimensions \<rightharpoonup> 'f"

definition NewMetricsMiddleware :: "'f MetricsMiddleware" where
  "NewMetricsMiddleware =
     \<lparr>TotalRequests = Map.empty, SumResponseTime = Map.empty, AvgResponseTime = Map.empty\<rparr>"

text \<open>Reading a Go map at a key: the zero value \<open>z\<close> of the value type when the key is
  absent.\<close>

definition index :: "('k \<rightharpoonup> 'v) \<Rightarrow> 'v \<Rightarrow> 'k \<Rightarrow> 'v" where
  "index m z k = (case m k of None \<Rightarrow> z | Some v \<Rightarrow> v)"

text \<open>
  The part of \<^verbatim>\<open>Intercept\<close> that runs under the mutex once the handler has returned:
  \<open>metricDim\<close> are the dimensions of the request (method, path of the request URI, the
  status code captured by the wrapped response writer) and \<open>elapsed\<close> the seconds it took.
\<close>

definition Intercept ::
  "'f float_ops \<Rightarrow> MetricDimensions \<Rightarrow> 'f \<Rightarrow> 'f MetricsMiddleware \<Rightarrow> 'f MetricsMiddleware" where
  "Intercept fo metricDim elapsed mw =
    (let total0 = (if TotalRequests mw metricDim = None
                   then (TotalRequests mw)(metricDim \<mapsto> 0) else TotalRequests mw);
         total1 = total0(metricDim \<mapsto> index total0 0 metricDim + 1);
         sum0 = (if SumResponseTime mw metricDim = None
                 then (SumResponseTime mw)(metricDim \<mapsto> fzero fo) else SumResponseTime mw);
         sum1 = sum0(metricDim \<mapsto> fadd fo (index sum0 (fzero fo) metricDim) elapsed);
         avg1 = (AvgResponseTime mw)(metricDim \<mapsto>
                   fdiv fo (index sum1 (fzero fo) metricDim)
                           (of_int64 fo (index total1 0 metricDim)))
     in \<lparr>TotalRequests = total1, SumResponseTime = sum1, AvgResponseTime = avg1\<rparr>)"

text \<open>
  The state of a new middleware after a sequence of request completions, in the order in
  which they take the mutex, and the elapsed times of the completions with dimensions \<open>d\<close>.
\<close>

definition after_completions ::
  "'f float_ops \<Rightarrow> (MetricDimensions \<times> 'f) list \<Rightarrow> 'f MetricsMiddleware" where
  "after_completions fo obs =
     foldl (\<lambda>mw (metricDim, elapsed). Intercept fo metricDim elapsed mw) NewMetricsMiddleware obs"

definition elapsed_of :: "MetricDimensions \<Rightarrow> (MetricDimensions \<times> 'f) list \<Rightarrow> 'f list" where
  "elapsed_of d obs = map snd (filter (\<lambda>ob. fst ob = d) obs)"

definition float_sum :: "'f float_ops \<Rightarrow> 'f list \<Rightarrow> 'f" where
  "float_sum fo es = foldl (fadd fo) (fzero fo) es"

section \<open>The writer pool (writerpool.go)\<close>

text \<open>
  A \<^verbatim>\<open>writeResultChan\<close> is a channel of capacity 1; here it is the identity of the
  channel, and the buffers of all result channels are kept in the \<open>chans\<close> component of
  the pool state (a channel that has not been made yet has the empty buffer).
\<close>

record cqlInsert =
  insertStatement :: string
  placeholders :: "cqlValue list"

type_synonym writeResultChan = nat

record insertOperation =
  op_insert :: cqlInsert
  resultChan :: writeResultChan

text \<open>A \<^verbatim>\<open>writer\<close>: whether its \<^verbatim>\<open>stopChan\<close> has been closed and whether its goroutine
  (\<^verbatim>\<open>start\<close>) has returned. Its work channel and driver are those of the pool.\<close>

record writer =
  stopChan_closed :: bool
  exited :: bool

text \<open>
  The \<^verbatim>\<open>writerPool\<close>: the state of the driver, the contents of the work channel (oldest
  first) and its capacity, the writers, the \<^verbatim>\<open>started\<close> flag, and the result channels.
\<close>

record 'd writerPool =
  cassandraDriver :: 'd
  workChan :: "insertOperation list"
  bufferSize :: nat
  writers :: "writer list"
  started :: bool
  chans :: "writeResultChan \<Rightarrow> error option list"
  nextChan :: writeResultChan






text \<open>
  \<^verbatim>\<open>writerPool.write\<close>, here \<open>pool_write\<close> (\<open>write\<close> is a keyword of the proof
  language). The call has either returned the result channel (\<open>Written\<close>),
  or it waits in the send \<^verbatim>\<open>pool.workChan <- insertRequest\<close> because the work channel has
  no room (\<open>Sending\<close>); the send then completes when there is room
  (\<open>complete_send\<close>) or when a writer receives the operation directly.
\<close>

datatype 'd write_result =
    Written writeResultChan "'d writerPool"
  | Sending insertOperation "'d writerPool"

definition rejected :: error where
  "rejected = Errorf ''write rejected: writerPool has been stopped''"

definition pool_write :: "string \<Rightarrow> cqlValue list \<Rightarrow> 'd writerPool \<Rightarrow> 'd write_result" where
  "pool_write stmt args pool =
     (let resultChan = nextChan pool;
          pool1 = pool\<lparr>nextChan := Suc resultChan, chans := (chans pool)(resultChan := [])\<rparr>
      in if \<not> started pool1 then
           Written resultChan (pool1\<lparr>chans := (chans pool1)(resultChan := [Some rejected])\<rparr>)
         else
           (let insertRequest =
                  \<lparr>op_insert = \<lparr>insertStatement = stmt, placeholders = args\<rparr>,
                   resultChan = resultChan\<rparr>
            in if length (workChan pool1) < bufferSize pool1 then
                 Written resultChan (pool1\<lparr>workChan := workChan pool1 @ [insertRequest]\<rparr>)
               else Sending insertRequest pool1))"

definition complete_send :: "insertOperation \<Rightarrow> 'd writerPool \<Rightarrow> 'd writerPool option" where
  "complete_send insertRequest pool =
     (if length (workChan pool) < bufferSize pool then
        Some (pool\<lparr>workChan := workChan pool @ [insertRequest]\<rparr>)
      else None)"

text \<open>
  Every result channel that an operation on the work channel refers to has been made and
  is still empty, and no two operations share one.
\<close>

definition pool_wf :: "'d writerPool \<Rightarrow> bool" where
  "pool_wf pool =
     (list_all (\<lambda>op. resultChan op < nextChan pool \<and> chans pool (resultChan op) = [])
        (workChan pool)
      \<and> distinct (map resultChan (workChan pool)))"

section \<open>Writing a batch (\<^verbatim>\<open>LogStore.Write\<close>)\<close>

definition LogStore_insertStatement :: "Options \<Rightarrow> string" where
  "LogStore_insertStatement opts =
     ''INSERT INTO '' @ Keyspace opts @ ''.'' @ LogTableName opts @ '' '' @
     ''(namespace, pod_name, container_name, date, time, message, stream, pod_id, docker_id, host, labels) '' @
     ''VALUES (?, ?, ?, ?, ?, ?, ?, ?, ?, ?, ?)''"

text \<open>The insert that \<^verbatim>\<open>LogStore.insert\<close> hands to the pool for a log entry.\<close>

definition entry_insert :: "(Time \<Rightarrow> string) \<Rightarrow> Options \<Rightarrow> LogEntry \<Rightarrow> cqlInsert" where
  "entry_insert fmtDate opts logEntry =
     (let podMeta = Kubernetes logEntry; date = fmtDate (Time logEntry)
      in \<lparr>insertStatement = LogStore_insertStatement opts,
          placeholders =
            [VText (Namespace podMeta), VText (PodName podMeta), VText (ContainerName podMeta),
             VText date, VTime (Time logEntry), VText (Log logEntry), VText (Stream logEntry),
             VText (PodID podMeta), VText (DockerID podMeta), VText (Host podMeta),
             VLabels (Labels podMeta)]\<rparr>)"

definition LogStore_insert ::
  "(Time \<Rightarrow> string) \<Rightarrow> Options \<Rightarrow> LogEntry \<Rightarrow> 'd writerPool \<Rightarrow> 'd write_result" where
  "LogStore_insert fmtDate opts logEntry pool =
     pool_write (insertStatement (entry_insert fmtDate opts logEntry))
                (placeholders (entry_insert fmtDate opts logEntry)) pool"

text \<open>
  \<^verbatim>\<open>LogStore.Write\<close> runs concurrently with the writers, so it is a thread that takes
  steps. It is in the first loop with the entries still to insert (\<open>Inserting\<close>), waits in
  the send of \<^verbatim>\<open>pool.write\<close> (\<open>Blocked_insert\<close>), is in the second loop with the result
  channels still to await (\<open>Awaiting\<close>), or has returned (\<open>Done\<close>). \<open>resultChannels\<close> is
  its local slice. \<open>inserted\<close> and \<open>received\<close> are history: the inserts it has passed to
  \<^verbatim>\<open>pool.write\<close>, and the channels it has received from with the value each one yielded.
\<close>

datatype Write_pc =
    Inserting "LogEntry list"
  | Blocked_insert insertOperation "LogEntry list"
  | Awaiting "writeResultChan list"
  | Done "error option"

record Write_call =
  resultChannels :: "writeResultChan list"
  inserted :: "cqlInsert list"
  received :: "(writeResultChan \<times> error option) list"
  pc :: Write_pc

record 'd config =
  pool :: "'d writerPool"
  call :: Write_call

definition Write_start :: "LogEntry list \<Rightarrow> Write_call" where
  "Write_start entries =
     \<lparr>resultChannels = [], inserted = [], received = [], pc = Inserting entries\<rparr>"

text \<open>
  One step of \<^verbatim>\<open>Write\<close>; \<open>None\<close> when it cannot move: it has returned, it waits for
  room on the work channel, or it waits for a value on the result channel it awaits.
\<close>

definition Write_step :: "(Time \<Rightarrow> string) \<Rightarrow> Options \<Rightarrow> 'd config \<Rightarrow> 'd config option" where
  "Write_step fmtDate opts cfg =
    (let c = call cfg in
     case pc c of
       Inserting [] \<Rightarrow> Some (cfg\<lparr>call := c\<lparr>pc := Awaiting (resultChannels c)\<rparr>\<rparr>)
     | Inserting (logEntry # es) \<Rightarrow>
         (case LogStore_insert fmtDate opts logEntry (pool cfg) of
            Written ch pool' \<Rightarrow>
              Some \<lparr>pool = pool',
                    call = c\<lparr>resultChannels := resultChannels c @ [ch],
                             inserted := inserted c @ [entry_insert fmtDate opts logEntry],
                             pc := Inserting es\<rparr>\<rparr>
          | Sending insertRequest pool' \<Rightarrow>
              Some \<lparr>pool = pool',
                    call = c\<lparr>inserted := inserted c @ [entry_insert fmtDate opts logEntry],
                             pc := Blocked_insert insertRequest es\<rparr>\<rparr>)
     | Blocked_insert insertRequest es \<Rightarrow>
         (case complete_send insertRequest (pool cfg) of
            None \<Rightarrow> None
          | Some pool' \<Rightarrow>
              Some \<lparr>pool = pool',
                    call = c\<lparr>resultChannels := resultChannels c @ [resultChan insertRequest],
                             pc := Inserting es\<rparr>\<rparr>)
     | Awaiting [] \<Rightarrow> Some (cfg\<lparr>call := c\<lparr>pc := Done None\<rparr>\<rparr>)
     | Awaiting (ch # chs) \<Rightarrow>
         (case chans (pool cfg) ch of
            [] \<Rightarrow> None
          | err # rest \<Rightarrow>
              Some \<lparr>pool = (pool cfg)\<lparr>chans := (chans (pool cfg))(ch := rest)\<rparr>,
                    call = c\<lparr>received := received c @ [(ch, err)],
                             pc := (case err of
                                      Some e \<Rightarrow> Done (Some (InsertError e))
                                    | None \<Rightarrow> Awaiting chs)\<rparr>\<rparr>)
     | Done result \<Rightarrow> None)"

text \<open>
  The first case of the \<^verbatim>\<open>select\<close> of \<^verbatim>\<open>writer.start\<close>, once an operation has been
  received: execute the insert on the driver and send the result on the operation's result
  channel. \<open>drvExecute\<close> is the \<^verbatim>\<open>Execute\<close> method of the \<^verbatim>\<open>Driver\<close> interface. The two
  are one step here; the send needs the result channel to have room.
\<close>

type_synonym 'd driver_execute = "'d \<Rightarrow> string \<Rightarrow> cqlValue list \<Rightarrow> error option \<times> 'd"

definition execute_op ::
  "'d driver_execute \<Rightarrow> insertOperation \<Rightarrow> 'd writerPool \<Rightarrow> 'd writerPool option" where
  "execute_op drvExecute op p =
     (case chans p (resultChan op) of
        [] \<Rightarrow>
          (case drvExecute (cassandraDriver p) (insertStatement (op_insert op))
                  (placeholders (op_insert op)) of
             (result, drv') \<Rightarrow>
               Some (p\<lparr>cassandraDriver := drv',
                       chans := (chans p)(resultChan op := [result])\<rparr>))
      | _ \<Rightarrow> None)"

text \<open>
  A step of writer \<open>w\<close> that receives an operation: the oldest one on the work channel,
  or, when the work channel is empty, the one that \<^verbatim>\<open>Write\<close> is waiting to send.
\<close>

definition writer_step :: "'d driver_execute \<Rightarrow> nat \<Rightarrow> 'd config \<Rightarrow> 'd config option" where
  "writer_step drvExecute w cfg =
    (if w < length (writers (pool cfg)) \<and> \<not> exited (writers (pool cfg) ! w) then
       (case workChan (pool cfg) of
          op # ops \<Rightarrow>
            map_option (\<lambda>p. cfg\<lparr>pool := p\<rparr>)
              (execute_op drvExecute op ((pool cfg)\<lparr>workChan := ops\<rparr>))
        | [] \<Rightarrow>
            (case pc (call cfg) of
               Blocked_insert insertRequest es \<Rightarrow>
                 map_option
                   (\<lambda>p. \<lparr>pool = p,
                          call = (call cfg)
                            \<lparr>resultChannels :=
                               resultChannels (call cfg) @ [resultChan insertRequest],
                             pc := Inserting es\<rparr>\<rparr>)
                   (execute_op drvExecute insertRequest (pool cfg))
             | _ \<Rightarrow> None))
     else None)"

text \<open>The second case of the \<^verbatim>\<open>select\<close>: the stop channel is closed and the writer
  returns.\<close>

definition writer_exit :: "nat \<Rightarrow> 'd config \<Rightarrow> 'd config option" where
  "writer_exit w cfg =
    (if w < length (writers (pool cfg)) \<and> stopChan_closed (writers (pool cfg) ! w)
        \<and> \<not> exited (writers (pool cfg) ! w) then
       Some (cfg\<lparr>pool := (pool cfg)
               \<lparr>writers := (writers (pool cfg))[w := (writers (pool cfg) ! w)\<lparr>exited := True\<rparr>]\<rparr>\<rparr>)
     else None)"

text \<open>A run is a sequence of steps of \<^verbatim>\<open>Write\<close> and of the writers, in any order.\<close>

datatype event = Write_runs | Writer_runs nat | Writer_exits nat

fun step ::
  "(Time \<Rightarrow> string) \<Rightarrow> Options \<Rightarrow> 'd driver_execute \<Rightarrow> event \<Rightarrow> 'd config \<Rightarrow> 'd config option"
  where
  "step fmtDate opts drvExecute Write_runs cfg = Write_step fmtDate opts cfg"
| "step fmtDate opts drvExecute (Writer_runs w) cfg = writer_step drvExecute w cfg"
| "step fmtDate opts drvExecute (Writer_exits w) cfg = writer_exit w cfg"

fun run ::
  "(Time \<Rightarrow> string) \<Rightarrow> Options \<Rightarrow> 'd driver_execute \<Rightarrow> event list \<Rightarrow> 'd config
     \<Rightarrow> 'd config option" where
  "run fmtDate opts drvExecute [] cfg = Some cfg"
| "run fmtDate opts drvExecute (ev # evs) cfg =
     (case step fmtDate opts drvExecute ev cfg of
        None \<Rightarrow> None
      | Some cfg' \<Rightarrow> run fmtDate opts drvExecute evs cfg')"




text \<open>
  The day periods as the specification describes them for a period from \<open>s\<close> to \<open>e\<close>:
  one period for each of the \<open>date e - date s + 1\<close> days; period \<open>i\<close> starts at \<open>s\<close>
  when it is the first and at the start of its day otherwise, and it ends at \<open>e\<close> when it
  is the last and one nanosecond before the next day starts otherwise.
\<close>

definition day_periods :: "Time \<Rightarrow> Time \<Rightarrow> timePeriod list" where
  "day_periods s e =
     (let n = nat ((abs_ns (date e) - abs_ns (date s)) div (24 * Hour))
      in map (\<lambda>i. \<lparr>p_start = (if i = 0 then s else Add (date s) (int i * (24 * Hour))),
                    p_end = (if i = n then e
                             else Add (Add (date s) ((int i + 1) * (24 * Hour)))
                                      (-1 * Nanosecond))\<rparr>)
             [0..<Suc n])"

text \<open>
  The same for a configuration: it also holds of the operation that \<^verbatim>\<open>Write\<close> is
  waiting to send, which is not on the work channel yet.
\<close>

definition config_wf :: "'d config \<Rightarrow> bool" where
  "config_wf cfg =
     (pool_wf (pool cfg)
      \<and> (case pc (call cfg) of
            Blocked_insert insertRequest es \<Rightarrow>
              resultChan insertRequest < nextChan (pool cfg)
              \<and> chans (pool cfg) (resultChan insertRequest) = []
              \<and> resultChan insertRequest \<notin> resultChan ` set (workChan (pool cfg))
          | _ \<Rightarrow> True))"





section \<open>Validation of the options\<close>

lemma first_violated_None: "first_violated cs = None \<longleftrightarrow> (\<forall>c \<in> set cs. fst c)"
  by (induction cs rule: first_violated.induct) auto

lemma Options_Validate_first_violated:
  "Options_Validate opts = map_option OptionError (first_violated (option_constraints opts))"
  unfolding Options_Validate_def option_constraints_def ReplicationStrategy_Validate_def
      SimpleStrategy_def NetworkTopologyStrategy_def
  by (auto simp: fmlookup_dom_iff fcard_fempty not_less not_le split: option.splits)

lemma fcard_one_member: "fcard A = 1 \<and> x |\<in>| A \<longleftrightarrow> A = {|x|}"
  by (metis One_nat_def fcard_finsert_disjoint fcard_fempty fcard_seteq finsert_absorb
      finsert_fsubset fempty_fsubsetI finsertI1 le_refl fempty_iff)

lemma single_key_iff:
  "(fcard (fmdom m) \<noteq> 1 \<or> fmlookup m k = None) \<longleftrightarrow> fmdom m \<noteq> {|k|}"
  using fcard_one_member [of "fmdom m" k] by (auto simp: fmlookup_dom_iff)

lemma Options_Validate_None:
  "Options_Validate opts = None \<longleftrightarrow>
     Hosts opts \<noteq> [] \<and> 1 \<le> CQLPort opts \<and> CQLPort opts \<le> 65535
     \<and> Keyspace opts \<noteq> [] \<and> LogTableName opts \<noteq> []
     \<and> (ReplicationStrategy opts = ''SimpleStrategy''
          \<and> fmdom (ReplicationFactors opts) = {|''cluster''|}
        \<or> ReplicationStrategy opts = ''NetworkTopologyStrategy''
          \<and> fmdom (ReplicationFactors opts) \<noteq> {||})
     \<and> 1 \<le> WriteConcurrency opts \<and> 1 \<le> WriteBufferSize opts"
proof -
  let ?m = "ReplicationFactors opts"
  note defs = Options_Validate_def ReplicationStrategy_Validate_def
        SimpleStrategy_def NetworkTopologyStrategy_def
  have "ReplicationStrategy opts = ''SimpleStrategy''
        \<or> ReplicationStrategy opts = ''NetworkTopologyStrategy''
        \<or> (ReplicationStrategy opts \<noteq> ''SimpleStrategy''
            \<and> ReplicationStrategy opts \<noteq> ''NetworkTopologyStrategy'')"
    by (cases "ReplicationStrategy opts = ''SimpleStrategy''") simp_all
  then consider (s) "ReplicationStrategy opts = ''SimpleStrategy''"
    | (n) "ReplicationStrategy opts = ''NetworkTopologyStrategy''"
    | (o) "ReplicationStrategy opts \<noteq> ''SimpleStrategy''"
          "ReplicationStrategy opts \<noteq> ''NetworkTopologyStrategy''"
    by (elim disjE conjE)
  then show ?thesis
  proof cases
    case s
    show ?thesis
    proof (cases "fmdom ?m = {|''cluster''|}")
      case True
      then have c: "fcard (fmdom ?m) = 1" and "fmlookup ?m ''cluster'' \<noteq> None"
        using single_key_iff [of ?m "''cluster''"] by simp_all
      then obtain v where v: "fmlookup ?m ''cluster'' = Some v"
        by (cases "fmlookup ?m ''cluster''") simp_all
      show ?thesis
        unfolding defs by (simp add: not_less not_le s True c [unfolded True] v del: One_nat_def)
    next
      case False
      then have "fcard (fmdom ?m) \<noteq> 1 \<or> fmlookup ?m ''cluster'' = None"
        using single_key_iff [of ?m "''cluster''"] by simp
      with s False show ?thesis
        unfolding defs by simp
    qed
  next
    case n
    show ?thesis
    proof (cases "fmdom ?m = {||}")
      case True
      then have "fcard (fmdom ?m) < 1" by (simp add: fcard_fempty)
      with n True show ?thesis
        unfolding defs by simp
    next
      case False
      then have "\<not> fcard (fmdom ?m) < 1" by simp
      with n False show ?thesis
        unfolding defs by (simp add: not_less not_le)
    qed
  next
    case o
    then show ?thesis
      unfolding defs by simp
  qed
qed

text \<open>
  C7. \<^verbatim>\<open>Options.Validate\<close> returns \<^verbatim>\<open>nil\<close> exactly when every constraint holds: hosts
  non-empty, port in 1..65535, keyspace and log table name non-empty, the replication
  strategy is SimpleStrategy with exactly the one replication factor entry "cluster" or
  NetworkTopologyStrategy with at least one entry, write concurrency and write buffer size
  at least 1. Otherwise it returns one \<^verbatim>\<open>OptionError\<close> whose message is that of the first
  constraint, in this order, that is violated.
\<close>

theorem Options_Validate_spec:
  "(Options_Validate opts = None \<longleftrightarrow>
     Hosts opts \<noteq> [] \<and> 1 \<le> CQLPort opts \<and> CQLPort opts \<le> 65535
     \<and> Keyspace opts \<noteq> [] \<and> LogTableName opts \<noteq> []
     \<and> (ReplicationStrategy opts = ''SimpleStrategy''
          \<and> fmdom (ReplicationFactors opts) = {|''cluster''|}
        \<or> ReplicationStrategy opts = ''NetworkTopologyStrategy''
          \<and> fmdom (ReplicationFactors opts) \<noteq> {||})
     \<and> 1 \<le> WriteConcurrency opts \<and> 1 \<le> WriteBufferSize opts)
   \<and> Options_Validate opts
       = map_option OptionError (first_violated (option_constraints opts))"
  by (rule conjI [OF Options_Validate_None Options_Validate_first_violated])


theorem Options_Validate_spec_witness:
  "Options_Validate
     \<lparr>Hosts = [''localhost''], CQLPort = 9042, Keyspace = ''ks'', LogTableName = ''log'',
      ReplicationStrategy = ''SimpleStrategy'',
      ReplicationFactors = fmupd ''cluster'' 1 fmempty,
      WriteConcurrency = 1, WriteBufferSize = 1024\<rparr> = None
   \<and> Options_Validate
     \<lparr>Hosts = [''localhost''], CQLPort = 0, Keyspace = [], LogTableName = ''log'',
      ReplicationStrategy = ''SimpleStrategy'',
      ReplicationFactors = fmupd ''dc1'' 1 fmempty,
      WriteConcurrency = 1, WriteBufferSize = 0\<rparr>
     = Some (OptionError ''CQL port must be in range [1,65535]'')
   \<and> Options_Validate
     \<lparr>Hosts = [''localhost''], CQLPort = 9042, Keyspace = ''ks'', LogTableName = ''log'',
      ReplicationStrategy = ''SimpleStrategy'',
      ReplicationFactors = fmupd ''dc1'' 1 fmempty,
      WriteConcurrency = 1, WriteBufferSize = 0\<rparr>
     = Some (OptionError
         ''for SimpleStrategy, a replication factor with key 'cluster' is required'')"
proof (intro conjI)
  show "Options_Validate
     \<lparr>Hosts = [''localhost''], CQLPort = 9042, Keyspace = ''ks'', LogTableName = ''log'',
      ReplicationStrategy = ''SimpleStrategy'',
      ReplicationFactors = fmupd ''cluster'' 1 fmempty,
      WriteConcurrency = 1, WriteBufferSize = 1024\<rparr> = None"
    using Options_Validate_spec [of "\<lparr>Hosts = [''localhost''], CQLPort = 9042,
      Keyspace = ''ks'', LogTableName = ''log'', ReplicationStrategy = ''SimpleStrategy'',
      ReplicationFactors = fmupd ''cluster'' 1 fmempty,
      WriteConcurrency = 1, WriteBufferSize = 1024\<rparr>", THEN conjunct1]
    by simp
  show "Options_Validate
     \<lparr>Hosts = [''localhost''], CQLPort = 0, Keyspace = [], LogTableName = ''log'',
      ReplicationStrategy = ''SimpleStrategy'',
      ReplicationFactors = fmupd ''dc1'' 1 fmempty,
      WriteConcurrency = 1, WriteBufferSize = 0\<rparr>
     = Some (OptionError ''CQL port must be in range [1,65535]'')"
    unfolding Options_Validate_spec [THEN conjunct2]
    by (simp add: option_constraints_def)
  show "Options_Validate
     \<lparr>Hosts = [''localhost''], CQLPort = 9042, Keyspace = ''ks'', LogTableName = ''log'',
      ReplicationStrategy = ''SimpleStrategy'',
      ReplicationFactors = fmupd ''dc1'' 1 fmempty,
      WriteConcurrency = 1, WriteBufferSize = 0\<rparr>
     = Some (OptionError
         ''for SimpleStrategy, a replication factor with key 'cluster' is required'')"
    unfolding Options_Validate_spec [THEN conjunct2]
    by (simp add: option_constraints_def fcard_finsert_if fcard_fempty)
qed

section \<open>Validation of log entries and queries\<close>

lemma LogEntry_Validate_first_violated:
  "LogEntry_Validate l = map_option Errorf (first_violated (log_entry_constraints l))"
  by (simp add: LogEntry_Validate_def log_entry_constraints_def IsZero_def)

lemma Query_Validate_first_violated:
  "Query_Validate q = map_option QueryError (first_violated (query_constraints q))"
  by (simp add: Query_Validate_def query_constraints_def IsZero_def Before_def)

text \<open>
  C8. \<^verbatim>\<open>LogEntry.Validate\<close> returns \<^verbatim>\<open>nil\<close> exactly when namespace, pod name and
  container name are non-empty and the timestamp is not the zero time, and otherwise the
  error "log entry missing F field" for the first missing F among namespace, pod_name,
  container_name, time. \<^verbatim>\<open>Query.Validate\<close> returns \<^verbatim>\<open>nil\<close> exactly when the three
  identifying fields are non-empty, both timestamps are non-zero and start is strictly
  before end, and otherwise "missing query parameter: N" for the first empty field or zero
  timestamp, or "query time-interval: start_time must be earlier than end_time" when
  start is not before end.
\<close>

theorem validators_spec:
  "(LogEntry_Validate l = None \<longleftrightarrow>
      Namespace (Kubernetes l) \<noteq> [] \<and> PodName (Kubernetes l) \<noteq> []
      \<and> ContainerName (Kubernetes l) \<noteq> [] \<and> abs_ns (Time l) \<noteq> 0)
   \<and> LogEntry_Validate l = map_option Errorf (first_violated (log_entry_constraints l))
   \<and> (Query_Validate q = None \<longleftrightarrow>
      q_Namespace q \<noteq> [] \<and> q_PodName q \<noteq> [] \<and> q_ContainerName q \<noteq> []
      \<and> abs_ns (StartTime q) \<noteq> 0 \<and> abs_ns (EndTime q) \<noteq> 0
      \<and> abs_ns (StartTime q) < abs_ns (EndTime q))
   \<and> Query_Validate q = map_option QueryError (first_violated (query_constraints q))"
proof (intro conjI)
  show "LogEntry_Validate l = None \<longleftrightarrow>
      Namespace (Kubernetes l) \<noteq> [] \<and> PodName (Kubernetes l) \<noteq> []
      \<and> ContainerName (Kubernetes l) \<noteq> [] \<and> abs_ns (Time l) \<noteq> 0"
    by (simp add: LogEntry_Validate_def IsZero_def)
  show "Query_Validate q = None \<longleftrightarrow>
      q_Namespace q \<noteq> [] \<and> q_PodName q \<noteq> [] \<and> q_ContainerName q \<noteq> []
      \<and> abs_ns (StartTime q) \<noteq> 0 \<and> abs_ns (EndTime q) \<noteq> 0
      \<and> abs_ns (StartTime q) < abs_ns (EndTime q)"
    by (simp add: Query_Validate_def IsZero_def Before_def)
qed (rule LogEntry_Validate_first_violated Query_Validate_first_violated)+

theorem validators_spec_witness:
  "LogEntry_Validate
     \<lparr>Kubernetes = \<lparr>DockerID = [], Labels = fmempty, Host = [], PodName = ''nginx-abcde'',
                    ContainerName = [], PodID = [], Namespace = ''default''\<rparr>,
      Log = ''event 1'', Stream = ''stdout'', Time = \<lparr>abs_ns = 0, loc = 0\<rparr>\<rparr>
     = Some (Errorf ''log entry missing container_name field'')
   \<and> Query_Validate
     \<lparr>q_Namespace = ''default'', q_PodName = ''nginx-abcde'', q_ContainerName = ''nginx'',
      StartTime = \<lparr>abs_ns = 2000, loc = 0\<rparr>, EndTime = \<lparr>abs_ns = 1000, loc = 0\<rparr>\<rparr>
     = Some (QueryError ''query time-interval: start_time must be earlier than end_time'')
   \<and> Query_Validate
     \<lparr>q_Namespace = ''default'', q_PodName = ''nginx-abcde'', q_ContainerName = ''nginx'',
      StartTime = \<lparr>abs_ns = 1000, loc = 0\<rparr>, EndTime = \<lparr>abs_ns = 2000, loc = 0\<rparr>\<rparr>
     = None"
proof (intro conjI)
  let ?l = "\<lparr>Kubernetes = \<lparr>DockerID = [], Labels = fmempty, Host = [],
                    PodName = ''nginx-abcde'',
                    ContainerName = [], PodID = [], Namespace = ''default''\<rparr>,
      Log = ''event 1'', Stream = ''stdout'', Time = \<lparr>abs_ns = 0, loc = 0\<rparr>\<rparr>"
  let ?q = "\<lparr>q_Namespace = ''default'', q_PodName = ''nginx-abcde'',
      q_ContainerName = ''nginx'',
      StartTime = \<lparr>abs_ns = 2000, loc = 0\<rparr>, EndTime = \<lparr>abs_ns = 1000, loc = 0\<rparr>\<rparr>"
  let ?q' = "\<lparr>q_Namespace = ''default'', q_PodName = ''nginx-abcde'',
      q_ContainerName = ''nginx'',
      StartTime = \<lparr>abs_ns = 1000, loc = 0\<rparr>, EndTime = \<lparr>abs_ns = 2000, loc = 0\<rparr>\<rparr>"
  have "first_violated (log_entry_constraints ?l)
          = Some ''log entry missing container_name field''"
    by (simp add: log_entry_constraints_def)
  then show "LogEntry_Validate ?l = Some (Errorf ''log entry missing container_name field'')"
    using validators_spec [of ?l ?q] by simp
  have "first_violated (query_constraints ?q)
          = Some ''query time-interval: start_time must be earlier than end_time''"
    by (simp add: query_constraints_def)
  then show "Query_Validate ?q = Some (QueryError
               ''query time-interval: start_time must be earlier than end_time'')"
    using validators_spec [of ?l ?q] by simp
  show "Query_Validate ?q' = None"
    using validators_spec [of ?l ?q'] by simp
qed

section \<open>Repeated query parameters\<close>

lemma getQueryParam_repeated:
  "fmlookup vals name = Some vs \<Longrightarrow> 1 < length vs \<Longrightarrow>
   getQueryParam name vals =
     Inl (Errorf (''query parameter '' @ name @ '' has wrong number of values: was: ''
                  @ itoa (length vs) @ '', expected: 1''))"
  by (simp add: getQueryParam_def itoa.simps digit_char_def)

lemma queryFromRequest_required:
  "name \<in> set required_params \<Longrightarrow> getQueryParam name vals = Inl e \<Longrightarrow>
   \<exists>e'. queryFromRequest parse now vals = Inl e'"
  by (auto simp: queryFromRequest_def required_params_def split: sum.splits option.splits)

lemma queryGetHandler_invalid:
  "queryFromRequest parse now vals = Inl e \<Longrightarrow>
   queryGetHandler parse now marshal store vals s
     = (errorResponse 400 \<lparr>Message = ''invalid query'', Detail = Error e\<rparr>, [], s)"
  by (simp add: queryGetHandler_def)

text \<open>
  C10. When the URL of a GET /query request gives one of the required parameters
  (namespace, pod_name, container_name, start_time) more than once, \<^verbatim>\<open>getQueryParam\<close>
  for that name fails with "query parameter NAME has wrong number of values: was: N,
  expected: 1", the handler answers 400 with the message "invalid query", and it makes no
  call to the store, whose state it leaves as it was.
\<close>

theorem repeated_param_rejected:
  assumes "name \<in> set required_params"
    and "fmlookup vals name = Some vs"
    and "1 < length vs"
  shows "getQueryParam name vals =
           Inl (Errorf (''query parameter '' @ name @ '' has wrong number of values: was: ''
                        @ itoa (length vs) @ '', expected: 1''))
         \<and> (\<exists>detail. queryGetHandler parse now marshal store vals s
               = (\<lparr>statusCode = 400, contentType = ''application/json'',
                   resp_body = ErrorBody \<lparr>Message = ''invalid query'', Detail = detail\<rparr>\<rparr>,
                  [], s))"
proof -
  have g: "getQueryParam name vals =
           Inl (Errorf (''query parameter '' @ name @ '' has wrong number of values: was: ''
                        @ itoa (length vs) @ '', expected: 1''))"
    using assms(2,3) by (rule getQueryParam_repeated)
  then obtain e' where "queryFromRequest parse now vals = Inl e'"
    using queryFromRequest_required [OF assms(1)] by blast
  then have "queryGetHandler parse now marshal store vals s
     = (errorResponse 400 \<lparr>Message = ''invalid query'', Detail = Error e'\<rparr>, [], s)"
    by (rule queryGetHandler_invalid)
  with g show ?thesis
    unfolding errorResponse_def by blast
qed

theorem repeated_param_rejected_witness:
  "getQueryParam ''pod_name''
     (fmupd ''namespace'' [''default''] (fmupd ''pod_name'' [''a'', ''b''] fmempty))
     = Inl (Errorf ''query parameter pod_name has wrong number of values: was: 2, expected: 1'')
   \<and> (\<exists>detail. queryGetHandler (\<lambda>_. None) \<lparr>abs_ns = 5, loc = 0\<rparr> (\<lambda>_. Inr [])
          \<lparr>store_Ready = (\<lambda>s. ((True, None), Suc s)),
           store_Query = (\<lambda>q s. (Inr \<lparr>LogRows = []\<rparr>, Suc s))\<rparr>
          (fmupd ''namespace'' [''default''] (fmupd ''pod_name'' [''a'', ''b''] fmempty))
          (0::nat)
        = (\<lparr>statusCode = 400, contentType = ''application/json'',
            resp_body = ErrorBody \<lparr>Message = ''invalid query'', Detail = detail\<rparr>\<rparr>,
           [], 0))"
proof -
  let ?vals = "fmupd ''namespace'' [''default''] (fmupd ''pod_name'' [''a'', ''b''] fmempty)"
  have 1: "''pod_name'' \<in> set required_params"
    by (simp add: required_params_def)
  have 2: "fmlookup ?vals ''pod_name'' = Some [''a'', ''b'']"
    by simp
  have 3: "1 < length [''a'', ''b'']"
    by simp
  have 4: "itoa (length [''a'', ''b'']) = ''2''"
    by (simp add: itoa.simps digit_char_def)
  show ?thesis
    using repeated_param_rejected [OF 1 2 3,
        of "\<lambda>_. None" "\<lparr>abs_ns = 5, loc = 0\<rparr>" "\<lambda>_. Inr []"
           "\<lparr>store_Ready = (\<lambda>s. ((True, None), Suc s)),
             store_Query = (\<lambda>q s. (Inr \<lparr>LogRows = []\<rparr>, Suc s))\<rparr>" "0::nat"]
    unfolding 4 by simp
qed

section \<open>Splitting a period by days\<close>

lemma date_abs: "abs_ns (date t) = abs_ns t - abs_ns t mod 86400000000000"
  by (simp add: date_def Truncate_def Hour_def)

lemma date_le: "abs_ns (date t) \<le> abs_ns t"
  by (simp add: date_abs)

lemma date_next_gt: "abs_ns t < abs_ns (date t) + 86400000000000"
proof -
  have "abs_ns t mod 86400000000000 < 86400000000000" by simp
  then show ?thesis unfolding date_abs by linarith
qed

lemma date_step:
  assumes "abs_ns (date t) < abs_ns (date e)"
  shows "abs_ns (date t) + 86400000000000 \<le> abs_ns (date e)"
proof -
  let ?D = "86400000000000 :: int"
  have t: "abs_ns (date t) = abs_ns t div ?D * ?D"
    unfolding date_abs by (rule minus_mod_eq_div_mult)
  have e: "abs_ns (date e) = abs_ns e div ?D * ?D"
    unfolding date_abs by (rule minus_mod_eq_div_mult)
  from assms have "abs_ns t div ?D < abs_ns e div ?D"
    unfolding t e by simp
  then have "abs_ns t div ?D + 1 \<le> abs_ns e div ?D" by simp
  then have "(abs_ns t div ?D + 1) * ?D \<le> abs_ns e div ?D * ?D"
    by (rule mult_right_mono) simp
  then show ?thesis unfolding t e by (simp add: algebra_simps)
qed

lemma dayLoop_chrono:
  "sorted_wrt precedes acc \<Longrightarrow>
   (\<forall>p \<in> set acc. abs_ns (p_end p) < abs_ns t \<and> abs_ns (p_end p) < abs_ns (date e)) \<Longrightarrow>
   sorted_wrt precedes (dayLoop acc t e)
   \<and> (\<forall>p \<in> set (dayLoop acc t e). abs_ns (p_end p) < abs_ns (date e))"
proof (induction acc t e rule: dayLoop.induct)
  case (1 dayPeriods t pend)
  show ?case
  proof (cases "Before (date t) (date pend)")
    case False
    with 1(2,3) show ?thesis
      by (subst dayLoop.simps, subst (2) dayLoop.simps) simp
  next
    case True
    let ?D = "86400000000000 :: int"
    let ?new = "\<lparr>p_start = t, p_end = Add (Add (date t) (24 * Hour)) (-1 * Nanosecond)\<rparr>"
    let ?t' = "Add (date t) (24 * Hour)"
    have lt: "abs_ns (date t) < abs_ns (date pend)"
      using True by (simp add: Before_def)
    have new_end: "abs_ns (p_end ?new) = abs_ns (date t) + ?D - 1"
      by (simp add: Add_def Hour_def Nanosecond_def)
    have t': "abs_ns ?t' = abs_ns (date t) + ?D"
      by (simp add: Add_def Hour_def)
    have "\<forall>p \<in> set dayPeriods. precedes p ?new"
      using 1(3) by (simp add: precedes_def)
    then have a: "sorted_wrt precedes (dayPeriods @ [?new])"
      using 1(2) by (simp add: sorted_wrt_append)
    have b: "\<forall>p \<in> set (dayPeriods @ [?new]).
               abs_ns (p_end p) < abs_ns ?t' \<and> abs_ns (p_end p) < abs_ns (date pend)"
    proof
      fix p assume "p \<in> set (dayPeriods @ [?new])"
      then consider "p \<in> set dayPeriods" | "p = ?new" by auto
      then show "abs_ns (p_end p) < abs_ns ?t' \<and> abs_ns (p_end p) < abs_ns (date pend)"
      proof cases
        case 1
        then have "abs_ns (p_end p) < abs_ns t" "abs_ns (p_end p) < abs_ns (date pend)"
          using "1.prems"(2) by auto
        then show ?thesis using date_next_gt [of t] unfolding t' by linarith
      next
        case 2
        show ?thesis unfolding 2 new_end t' using date_step [OF lt] by linarith
      qed
    qed
    have "sorted_wrt precedes (dayLoop (dayPeriods @ [?new]) ?t' pend)
      \<and> (\<forall>p \<in> set (dayLoop (dayPeriods @ [?new]) ?t' pend). abs_ns (p_end p) < abs_ns (date pend))"
      using "1.IH" [OF True a b] .
    then show ?thesis
      using True by (subst dayLoop.simps, subst (2) dayLoop.simps) simp
  qed
qed

lemma divideByDays_chrono: "sorted_wrt precedes (divideByDays p)"
proof (cases "date (p_start p) = date (p_end p)")
  case True
  then show ?thesis by (simp add: divideByDays_def)
next
  case False
  have "sorted_wrt precedes (dayLoop [] (p_start p) (p_end p))
   \<and> (\<forall>q \<in> set (dayLoop [] (p_start p) (p_end p)). abs_ns (p_end q) < abs_ns (date (p_end p)))"
    by (rule dayLoop_chrono) simp_all
  moreover have "precedes q \<lparr>p_start = date (p_end p), p_end = p_end p\<rparr>"
    if "abs_ns (p_end q) < abs_ns (date (p_end p))" for q
    using that by (simp add: precedes_def)
  ultimately show ?thesis
    using False by (simp add: divideByDays_def sorted_wrt_append)
qed

lemma date_idem: "date (Add (date t) (24 * Hour)) = Add (date t) (24 * Hour)"
proof -
  have "(abs_ns t - abs_ns t mod 86400000000000) mod 86400000000000 = 0"
    by (simp add: mod_diff_left_eq [symmetric])
  then have "(abs_ns t - abs_ns t mod 86400000000000 + 86400000000000) mod 86400000000000 = 0"
    by (simp add: mod_add_left_eq [symmetric])
  then show ?thesis
    by (simp add: date_def Truncate_def Add_def Hour_def)
qed

lemma date_div: "abs_ns (date t) = abs_ns t div 86400000000000 * 86400000000000"
  unfolding date_abs by (rule minus_mod_eq_div_mult)

lemma days_between:
  "(abs_ns (date e) - abs_ns (date t)) div (24 * Hour)
     = abs_ns e div 86400000000000 - abs_ns t div 86400000000000"
proof -
  have "abs_ns (date e) - abs_ns (date t)
        = (abs_ns e div 86400000000000 - abs_ns t div 86400000000000) * 86400000000000"
    unfolding date_div by (simp add: algebra_simps)
  then show ?thesis
    by (simp add: Hour_def)
qed

lemma Add_Add: "Add (Add t a) b = Add t (a + b)"
  by (simp add: Add_def)

text \<open>The periods that the loop appends, starting from \<open>t\<close>.\<close>

lemma dayLoop_periods:
  "dayLoop acc t e =
     acc @ map (\<lambda>i. \<lparr>p_start = (if i = 0 then t else Add (date t) (int i * (24 * Hour))),
                     p_end = Add (Add (date t) ((int i + 1) * (24 * Hour))) (-1 * Nanosecond)\<rparr>)
               [0..<nat ((abs_ns (date e) - abs_ns (date t)) div (24 * Hour))]"
proof (induction acc t e rule: dayLoop.induct)
  case (1 dayPeriods t pend)
  let ?k = "nat ((abs_ns (date pend) - abs_ns (date t)) div (24 * Hour))"
  let ?f = "\<lambda>t i. \<lparr>p_start = (if i = 0 then t else Add (date t) (int i * (24 * Hour))),
                     p_end = Add (Add (date t) ((int i + 1) * (24 * Hour))) (-1 * Nanosecond)\<rparr>"
  show ?case
  proof (cases "Before (date t) (date pend)")
    case False
    then have "abs_ns pend div 86400000000000 \<le> abs_ns t div 86400000000000"
      unfolding Before_def date_div by simp
    then have "?k = 0"
      unfolding days_between by simp
    with False show ?thesis
      by (subst dayLoop.simps) simp
  next
    case True
    let ?t' = "Add (date t) (24 * Hour)"
    let ?k' = "nat ((abs_ns (date pend) - abs_ns (date ?t')) div (24 * Hour))"
    have lt: "abs_ns t div 86400000000000 < abs_ns pend div 86400000000000"
      using True unfolding Before_def date_div by simp
    have t'_div: "abs_ns ?t' div 86400000000000 = abs_ns t div 86400000000000 + 1"
      by (simp add: Add_def Hour_def date_div)
    have k: "?k = Suc ?k'"
      unfolding days_between t'_div using lt by simp
    have shift: "?f t (Suc i) = ?f ?t' i" for i
      by (simp only: date_idem Add_Add) (simp add: algebra_simps)
    have "map (?f t) [0..<?k] = ?f t 0 # map (\<lambda>i. ?f t (Suc i)) [0..<?k']"
      unfolding k by (simp add: upt_conv_Cons map_Suc_upt [symmetric] del: upt_Suc)
    also have "\<dots> = ?f t 0 # map (?f ?t') [0..<?k']"
      unfolding shift ..
    finally have m: "map (?f t) [0..<?k] = ?f t 0 # map (?f ?t') [0..<?k']" .
    have "dayLoop dayPeriods t pend
            = dayLoop (dayPeriods @ [\<lparr>p_start = t, p_end = Add ?t' (-1 * Nanosecond)\<rparr>]) ?t' pend"
      using True by (subst dayLoop.simps) simp
    also have "\<dots> = (dayPeriods @ [\<lparr>p_start = t, p_end = Add ?t' (-1 * Nanosecond)\<rparr>])
                      @ map (?f ?t') [0..<?k']"
      by (rule "1.IH" [OF True])
    also have "\<dots> = dayPeriods @ map (?f t) [0..<?k]"
      unfolding m by simp
    finally show ?thesis .
  qed
qed

text \<open>
  For a period whose start is not after its end and whose endpoints carry the same
  location (as when both are UTC), \<^verbatim>\<open>divideByDays\<close> returns the day periods of the
  specification.
\<close>

lemma divideByDays_same_location:
  assumes le: "abs_ns (p_start p) \<le> abs_ns (p_end p)"
    and lc: "loc (p_start p) = loc (p_end p)"
  shows "divideByDays p = day_periods (p_start p) (p_end p)"
proof -
  let ?s = "p_start p" and ?e = "p_end p"
  let ?n = "nat ((abs_ns (date ?e) - abs_ns (date ?s)) div (24 * Hour))"
  have dle: "abs_ns ?s div 86400000000000 \<le> abs_ns ?e div 86400000000000"
    using zdiv_mono1 [OF le, of 86400000000000] by simp
  have loc_date: "loc (date t) = loc t" for t
    by (simp add: date_def Truncate_def)
  have date_eq: "date ?s = date ?e \<longleftrightarrow> abs_ns (date ?s) = abs_ns (date ?e)"
    using lc loc_date [of ?s] loc_date [of ?e] by (auto intro: Time.equality)
  show ?thesis
  proof (cases "date ?s = date ?e")
    case True
    then have "?n = 0"
      using date_eq by simp
    with True show ?thesis
      by (simp add: divideByDays_def day_periods_def)
  next
    case False
    then have "abs_ns ?s div 86400000000000 \<noteq> abs_ns ?e div 86400000000000"
      using date_eq unfolding date_div by simp
    with dle have lt: "abs_ns ?s div 86400000000000 < abs_ns ?e div 86400000000000"
      by simp
    define n where "n = ?n"
    from lt have n: "0 < n" "int n = abs_ns ?e div 86400000000000 - abs_ns ?s div 86400000000000"
      unfolding n_def days_between by simp_all
    have "abs_ns (date ?s) + int n * (24 * Hour) = abs_ns (date ?e)"
      unfolding n(2) date_div by (simp add: Hour_def algebra_simps)
    then have last_start: "Add (date ?s) (int n * (24 * Hour)) = date ?e"
      using lc loc_date [of ?s] loc_date [of ?e]
      by (intro Time.equality) (simp_all add: Add_def)
    have "day_periods ?s ?e
            = map (\<lambda>i. \<lparr>p_start = (if i = 0 then ?s else Add (date ?s) (int i * (24 * Hour))),
                    p_end = (if i = n then ?e
                             else Add (Add (date ?s) ((int i + 1) * (24 * Hour)))
                                      (-1 * Nanosecond))\<rparr>) [0..<n]
              @ [\<lparr>p_start = date ?e, p_end = ?e\<rparr>]"
      using n(1) last_start unfolding day_periods_def Let_def n_def [symmetric] by simp
    also have "map (\<lambda>i. \<lparr>p_start = (if i = 0 then ?s else Add (date ?s) (int i * (24 * Hour))),
                    p_end = (if i = n then ?e
                             else Add (Add (date ?s) ((int i + 1) * (24 * Hour)))
                                      (-1 * Nanosecond))\<rparr>) [0..<n]
        = map (\<lambda>i. \<lparr>p_start = (if i = 0 then ?s else Add (date ?s) (int i * (24 * Hour))),
                    p_end = Add (Add (date ?s) ((int i + 1) * (24 * Hour)))
                                      (-1 * Nanosecond)\<rparr>) [0..<n]"
      by (rule map_cong) simp_all
    also have "\<dots> = dayLoop [] ?s ?e"
      unfolding n_def by (simp add: dayLoop_periods)
    finally show ?thesis
      using False by (simp add: divideByDays_def)
  qed
qed

lemma date_shift:
  "abs_ns (date (Add (date t) (k * (24 * Hour)))) = abs_ns (date t) + k * (24 * Hour)"
proof -
  let ?D = "86400000000000 :: int"
  have 1: "abs_ns (Add (date t) (k * (24 * Hour))) = (abs_ns t div ?D + k) * ?D"
    by (simp add: Add_def date_div Hour_def algebra_simps)
  show ?thesis
    unfolding date_div [of "Add (date t) (k * (24 * Hour))"] 1 date_div [of t]
    by (simp add: Hour_def algebra_simps)
qed

lemma same_day:
  "abs_ns (date (Add (Add (date t) ((int i + 1) * (24 * Hour))) (-1 * Nanosecond)))
     = abs_ns (date t) + int i * (24 * Hour)"
proof -
  let ?D = "86400000000000 :: int"
  let ?a = "abs_ns t div ?D"
  let ?x = "Add (Add (date t) ((int i + 1) * (24 * Hour))) (-1 * Nanosecond)"
  have 1: "abs_ns ?x = 86399999999999 + (?a + int i) * ?D"
    by (simp add: Add_def date_div Hour_def Nanosecond_def algebra_simps)
  have 2: "abs_ns ?x div ?D = ?a + int i"
    unfolding 1 by simp
  show ?thesis
    unfolding date_div [of ?x] 2 date_div [of t]
    by (simp add: Hour_def algebra_simps)
qed

lemma dayLoop_within_day:
  assumes "p \<in> set (dayLoop [] t e)"
  shows "abs_ns (date (p_start p)) = abs_ns (date (p_end p))"
proof -
  from assms obtain i where
    p: "p = \<lparr>p_start = (if i = 0 then t else Add (date t) (int i * (24 * Hour))),
             p_end = Add (Add (date t) ((int i + 1) * (24 * Hour))) (-1 * Nanosecond)\<rparr>"
    unfolding dayLoop_periods [of "[]"] by auto
  show ?thesis
    unfolding p using same_day [of t i] date_shift [of t "int i"] by simp
qed

lemma divideByDays_within_day:
  assumes "q \<in> set (divideByDays p)"
  shows "abs_ns (date (p_start q)) = abs_ns (date (p_end q))"
proof (cases "date (p_start p) = date (p_end p)")
  case True
  with assms show ?thesis by (simp add: divideByDays_def)
next
  case False
  with assms consider "q \<in> set (dayLoop [] (p_start p) (p_end p))"
    | "q = \<lparr>p_start = date (p_end p), p_end = p_end p\<rparr>"
    by (auto simp: divideByDays_def)
  then show ?thesis
  proof cases
    case 1
    then show ?thesis by (rule dayLoop_within_day)
  next
    case 2
    have "abs_ns (date (date t)) = abs_ns (date t)" for t
      using date_shift [of t 0] by (simp add: Add_def)
    with 2 show ?thesis by simp
  qed
qed

text \<open>
  What holds of the sub-queries of every query: they carry the query's namespace, pod name
  and container name, and the start and the end of each lie on one UTC date.
\<close>

lemma Split_sub_queries:
  assumes "sq \<in> set (Split q)"
  shows "q_Namespace sq = q_Namespace q \<and> q_PodName sq = q_PodName q
       \<and> q_ContainerName sq = q_ContainerName q
       \<and> abs_ns (date (StartTime sq)) = abs_ns (date (EndTime sq))"
  using assms divideByDays_within_day by (auto simp: Split_def)

section \<open>Order of the rows of a query result\<close>

lemma row_in_windowD:
  assumes w: "row_in_window s e r"
  shows "\<exists>t m. fmlookup r ''time'' = Some (VTime t) \<and> fmlookup r ''message'' = Some (VText m)
           \<and> abs_ns s \<le> abs_ns t \<and> abs_ns t \<le> abs_ns e"
proof (cases "fmlookup r ''time''")
  case None
  with w show ?thesis by (simp add: row_in_window_def)
next
  case (Some v)
  note tv = this
  show ?thesis
  proof (cases v)
    case (VTime t)
    show ?thesis
    proof (cases "fmlookup r ''message''")
      case None
      with w tv VTime show ?thesis by (simp add: row_in_window_def)
    next
      case (Some u)
      with w tv VTime show ?thesis by (cases u) (simp_all add: row_in_window_def)
    qed
  qed (use w tv in \<open>simp_all add: row_in_window_def\<close>)
qed

lemma convertRows_in_window:
  "rows_in_window s e rows \<Longrightarrow>
   \<exists>lr. convertRows rows = Returned lr
        \<and> map Some lr = map asLogRow rows
        \<and> map (\<lambda>r. abs_ns (row_Time r)) lr = map row_instant rows
        \<and> (\<forall>r \<in> set lr. abs_ns s \<le> abs_ns (row_Time r) \<and> abs_ns (row_Time r) \<le> abs_ns e)"
proof (induction rows)
  case Nil
  then show ?case by simp
next
  case (Cons r rows)
  from Cons.prems have w: "row_in_window s e r" and rest: "rows_in_window s e rows"
    by (simp_all add: rows_in_window_def)
  from w obtain t m where t: "fmlookup r ''time'' = Some (VTime t)"
    and m: "fmlookup r ''message'' = Some (VText m)"
    and b: "abs_ns s \<le> abs_ns t" "abs_ns t \<le> abs_ns e"
    using row_in_windowD by blast
  from Cons.IH [OF rest] obtain lr where lr: "convertRows rows = Returned lr"
    "map Some lr = map asLogRow rows"
    "map (\<lambda>r. abs_ns (row_Time r)) lr = map row_instant rows"
    "\<forall>r \<in> set lr. abs_ns s \<le> abs_ns (row_Time r) \<and> abs_ns (row_Time r) \<le> abs_ns e"
    by blast
  have c: "convertRows (r # rows) = Returned (\<lparr>row_Time = t, row_Log = m\<rparr> # lr)"
    by (simp add: t m lr(1))
  have a: "asLogRow r = Some \<lparr>row_Time = t, row_Log = m\<rparr>"
    by (simp add: asLogRow_def t m)
  have i: "row_instant r = abs_ns t"
    by (simp add: row_instant_def t)
  show ?case
  proof (intro exI conjI)
    show "convertRows (r # rows) = Returned (\<lparr>row_Time = t, row_Log = m\<rparr> # lr)"
      by (rule c)
    show "map Some (\<lparr>row_Time = t, row_Log = m\<rparr> # lr) = map asLogRow (r # rows)"
      using lr(2) a by simp
    show "map (\<lambda>r. abs_ns (row_Time r)) (\<lparr>row_Time = t, row_Log = m\<rparr> # lr)
            = map row_instant (r # rows)"
      using lr(3) i by simp
    show "\<forall>r \<in> set (\<lparr>row_Time = t, row_Log = m\<rparr> # lr).
            abs_ns s \<le> abs_ns (row_Time r) \<and> abs_ns (row_Time r) \<le> abs_ns e"
      using lr(4) b by simp
  qed
qed

text \<open>One sub-query: a good answer of the driver is returned row by row.\<close>

lemma executeQuery_in_window:
  assumes q: "drvQuery d (logQueryStatement opts)
          [VText (q_Namespace sq), VText (q_PodName sq), VText (q_ContainerName sq),
           VText (fmtDate (StartTime sq)), VTime (StartTime sq), VTime (EndTime sq)]
          = (answer, d')"
    and good: "answer_in_window sq answer"
  shows "\<exists>lr. executeQuery fmtDate drvQuery opts sq d = (Returned (Inr lr), d')
        \<and> map Some lr = map asLogRow (answer_rows answer)
        \<and> sorted (map (\<lambda>r. abs_ns (row_Time r)) lr)
        \<and> (\<forall>r \<in> set lr. abs_ns (StartTime sq) \<le> abs_ns (row_Time r)
                         \<and> abs_ns (row_Time r) \<le> abs_ns (EndTime sq))"
proof (cases answer)
  case (Inl err)
  with good show ?thesis by (simp add: answer_in_window_def)
next
  case (Inr rows)
  with good have w: "rows_in_window (StartTime sq) (EndTime sq) rows"
    by (simp add: answer_in_window_def)
  from convertRows_in_window [OF w] obtain lr where lr: "convertRows rows = Returned lr"
    "map Some lr = map asLogRow rows"
    "map (\<lambda>r. abs_ns (row_Time r)) lr = map row_instant rows"
    "\<forall>r \<in> set lr. abs_ns (StartTime sq) \<le> abs_ns (row_Time r)
                         \<and> abs_ns (row_Time r) \<le> abs_ns (EndTime sq)"
    by blast
  have "executeQuery fmtDate drvQuery opts sq d = (Returned (Inr lr), d')"
    by (simp add: executeQuery_def q Inr lr(1))
  moreover have "map Some lr = map asLogRow (answer_rows answer)"
    by (simp add: answer_rows_def Inr lr(2))
  moreover have "sorted (map (\<lambda>r. abs_ns (row_Time r)) lr)"
    using w unfolding lr(3) rows_in_window_def by simp
  ultimately show ?thesis using lr(4) by blast
qed

text \<open>
  The loop over the sub-queries: when every answer the driver gives on the way is good,
  the loop appends the rows of the answers, in the order of the sub-queries, to the rows
  it started with, and leaves the driver in the state after the last answer.
\<close>

lemma querySubQueries_concat:
  assumes "list_all2 answer_in_window sqs (fst (driver_answers fmtDate drvQuery opts sqs d))"
    and "sorted_wrt window_before sqs"
    and "sorted (map (\<lambda>r. abs_ns (row_Time r)) acc)"
    and "\<forall>sq \<in> set sqs. \<forall>r \<in> set acc. abs_ns (row_Time r) \<le> abs_ns (StartTime sq)"
  shows "\<exists>rows. querySubQueries fmtDate drvQuery opts acc sqs d
            = (Returned (Inr \<lparr>LogRows = acc @ rows\<rparr>),
               snd (driver_answers fmtDate drvQuery opts sqs d))
          \<and> map Some rows
            = map asLogRow
                (concat (map answer_rows (fst (driver_answers fmtDate drvQuery opts sqs d))))
          \<and> sorted (map (\<lambda>r. abs_ns (row_Time r)) (acc @ rows))"
  using assms
proof (induction sqs arbitrary: acc d)
  case Nil
  then show ?case by simp
next
  case (Cons sq sqs)
  obtain answer d1 where q: "drvQuery d (logQueryStatement opts)
          [VText (q_Namespace sq), VText (q_PodName sq), VText (q_ContainerName sq),
           VText (fmtDate (StartTime sq)), VTime (StartTime sq), VTime (EndTime sq)]
          = (answer, d1)"
    by (cases "drvQuery d (logQueryStatement opts)
          [VText (q_Namespace sq), VText (q_PodName sq), VText (q_ContainerName sq),
           VText (fmtDate (StartTime sq)), VTime (StartTime sq), VTime (EndTime sq)]")
  obtain answers d2 where da: "driver_answers fmtDate drvQuery opts sqs d1 = (answers, d2)"
    by (cases "driver_answers fmtDate drvQuery opts sqs d1")
  have das: "driver_answers fmtDate drvQuery opts (sq # sqs) d = (answer # answers, d2)"
    by (simp add: q da)
  from Cons.prems(1) have good: "answer_in_window sq answer"
    and 1: "list_all2 answer_in_window sqs (fst (driver_answers fmtDate drvQuery opts sqs d1))"
    unfolding das by (simp_all add: da)
  from executeQuery_in_window
         [where drvQuery = drvQuery and fmtDate = fmtDate and d = d and opts = opts
            and sq = sq and answer = answer and d' = d1, OF q good]
  obtain lr where
    ex: "executeQuery fmtDate drvQuery opts sq d = (Returned (Inr lr), d1)"
    and rs: "map Some lr = map asLogRow (answer_rows answer)"
    and so: "sorted (map (\<lambda>r. abs_ns (row_Time r)) lr)"
    and win: "\<forall>r \<in> set lr. abs_ns (StartTime sq) \<le> abs_ns (row_Time r)
                         \<and> abs_ns (row_Time r) \<le> abs_ns (EndTime sq)"
    by blast
  have 2: "sorted_wrt window_before sqs"
    using Cons.prems(2) by simp
  have x: "abs_ns (row_Time a) \<le> abs_ns (row_Time b)" if "a \<in> set acc" "b \<in> set lr" for a b
  proof -
    have "abs_ns (row_Time a) \<le> abs_ns (StartTime sq)"
      using Cons.prems(4) that(1) by simp
    moreover have "abs_ns (StartTime sq) \<le> abs_ns (row_Time b)"
      using win that(2) by simp
    ultimately show ?thesis by linarith
  qed
  have 3: "sorted (map (\<lambda>r. abs_ns (row_Time r)) (acc @ lr))"
    using Cons.prems(3) so x by (auto simp: sorted_append)
  have 4: "\<forall>sq' \<in> set sqs. \<forall>r \<in> set (acc @ lr). abs_ns (row_Time r) \<le> abs_ns (StartTime sq')"
  proof (intro ballI)
    fix sq' r assume sq': "sq' \<in> set sqs" and r: "r \<in> set (acc @ lr)"
    have lt: "abs_ns (EndTime sq) < abs_ns (StartTime sq')"
      using Cons.prems(2) sq' by (auto simp: window_before_def)
    from r consider "r \<in> set acc" | "r \<in> set lr" by auto
    then show "abs_ns (row_Time r) \<le> abs_ns (StartTime sq')"
    proof cases
      case 1
      then show ?thesis using Cons.prems(4) sq' by simp
    next
      case 2
      then show ?thesis using win lt by fastforce
    qed
  qed
  from Cons.IH [OF 1 2 3 4] obtain rows where
    run: "querySubQueries fmtDate drvQuery opts (acc @ lr) sqs d1
            = (Returned (Inr \<lparr>LogRows = (acc @ lr) @ rows\<rparr>),
               snd (driver_answers fmtDate drvQuery opts sqs d1))"
    and rows: "map Some rows
            = map asLogRow
                (concat (map answer_rows (fst (driver_answers fmtDate drvQuery opts sqs d1))))"
    and sorted: "sorted (map (\<lambda>r. abs_ns (row_Time r)) ((acc @ lr) @ rows))"
    by blast
  show ?case
  proof (intro exI conjI)
    show "querySubQueries fmtDate drvQuery opts acc (sq # sqs) d
            = (Returned (Inr \<lparr>LogRows = acc @ (lr @ rows)\<rparr>),
               snd (driver_answers fmtDate drvQuery opts (sq # sqs) d))"
      unfolding das using run by (simp add: ex da)
    show "map Some (lr @ rows)
            = map asLogRow
                (concat (map answer_rows
                   (fst (driver_answers fmtDate drvQuery opts (sq # sqs) d))))"
      unfolding das using rows rs by (simp add: da)
    show "sorted (map (\<lambda>r. abs_ns (row_Time r)) (acc @ (lr @ rows)))"
      using sorted by simp
  qed
qed

lemma Split_windows: "sorted_wrt window_before (Split q)"
proof -
  have "sorted_wrt precedes ps \<Longrightarrow>
        sorted_wrt window_before (map (\<lambda>queryDay.
            \<lparr>q_Namespace = q_Namespace q, q_PodName = q_PodName q,
             q_ContainerName = q_ContainerName q,
             StartTime = p_start queryDay, EndTime = p_end queryDay\<rparr>) ps)" for ps
    by (induction ps) (auto simp: window_before_def precedes_def)
  then show ?thesis
    unfolding Split_def using divideByDays_chrono by blast
qed

text \<open>
  C3. \<^verbatim>\<open>LogStore.Query\<close> asks the driver the sub-queries that \<^verbatim>\<open>Split\<close> produces, one after
  the other. If every answer the driver gives on the way is no error and has rows that
  carry a time and a message, whose timestamps ascend and lie within the window
  [start, end] of the sub-query asked, then \<^verbatim>\<open>LogStore.Query\<close> returns a result (no error,
  no panic), the rows of the result are the rows of the answers, concatenated in the
  order of the sub-queries, none added, dropped or moved, the driver is left in the state
  after the last answer, and the rows of the result are non-decreasing in time. Nothing
  is asked of the driver in states that the call does not reach, and no validity of the
  query is needed.
\<close>

theorem Query_rows_ascending:
  assumes "list_all2 answer_in_window (Split query)
             (fst (driver_answers fmtDate drvQuery opts (Split query) d))"
  shows "\<exists>rows. LogStore_Query fmtDate drvQuery opts query d
            = (Returned (Inr \<lparr>LogRows = rows\<rparr>),
               snd (driver_answers fmtDate drvQuery opts (Split query) d))
          \<and> map Some rows
            = map asLogRow
                (concat (map answer_rows
                   (fst (driver_answers fmtDate drvQuery opts (Split query) d))))
          \<and> sorted (map (\<lambda>r. abs_ns (row_Time r)) rows)"
  using querySubQueries_concat [OF assms Split_windows, of "[]"]
  unfolding LogStore_Query_def by simp

text \<open>
  A query from 23:59:59 of the first day to 00:00:01 of the second, and a driver that
  counts its calls, answers the first two with a row at the start and a row at the end
  of the window asked, and fails from the third call on: the result has the four rows of
  the two answers in that order.
\<close>

theorem Query_rows_ascending_witness:
  "LogStore_Query (\<lambda>t. ''day'')
        (\<lambda>d stmt args.
           (if d < 2
            then Inr [fmupd ''time'' (args ! 4) (fmupd ''message'' (VText ''first'') fmempty),
                      fmupd ''time'' (args ! 5) (fmupd ''message'' (VText ''last'') fmempty)]
            else Inl (Errorf ''no session''),
            Suc d))
        \<lparr>Hosts = [''localhost''], CQLPort = 9042, Keyspace = ''ks'', LogTableName = ''log'',
         ReplicationStrategy = ''SimpleStrategy'',
         ReplicationFactors = fmupd ''cluster'' 1 fmempty,
         WriteConcurrency = 1, WriteBufferSize = 1024\<rparr>
        \<lparr>q_Namespace = ''ns'', q_PodName = ''nginx-abcde'', q_ContainerName = ''nginx'',
         StartTime = \<lparr>abs_ns = 86399000000000, loc = 0\<rparr>,
         EndTime = \<lparr>abs_ns = 86401000000000, loc = 0\<rparr>\<rparr> (0::nat)
     = (Returned (Inr \<lparr>LogRows =
          [\<lparr>row_Time = \<lparr>abs_ns = 86399000000000, loc = 0\<rparr>, row_Log = ''first''\<rparr>,
           \<lparr>row_Time = \<lparr>abs_ns = 86399999999999, loc = 0\<rparr>, row_Log = ''last''\<rparr>,
           \<lparr>row_Time = \<lparr>abs_ns = 86400000000000, loc = 0\<rparr>, row_Log = ''first''\<rparr>,
           \<lparr>row_Time = \<lparr>abs_ns = 86401000000000, loc = 0\<rparr>, row_Log = ''last''\<rparr>]\<rparr>), 2)"
proof -
  let ?q = "\<lparr>q_Namespace = ''ns'', q_PodName = ''nginx-abcde'', q_ContainerName = ''nginx'',
         StartTime = \<lparr>abs_ns = 86399000000000, loc = 0\<rparr>,
         EndTime = \<lparr>abs_ns = 86401000000000, loc = 0\<rparr>\<rparr>"
  let ?drv = "\<lambda>(d::nat) (stmt::string) (args::cqlValue list).
           (if d < 2
            then Inr [fmupd ''time'' (args ! 4) (fmupd ''message'' (VText ''first'') fmempty),
                      fmupd ''time'' (args ! 5) (fmupd ''message'' (VText ''last'') fmempty)]
            else (Inl (Errorf ''no session'') :: error + CQLRow list),
            Suc d)"
  let ?opts = "\<lparr>Hosts = [''localhost''], CQLPort = 9042, Keyspace = ''ks'',
         LogTableName = ''log'', ReplicationStrategy = ''SimpleStrategy'',
         ReplicationFactors = fmupd ''cluster'' 1 fmempty,
         WriteConcurrency = 1, WriteBufferSize = 1024\<rparr>"
  have split: "Split ?q =
     [\<lparr>q_Namespace = ''ns'', q_PodName = ''nginx-abcde'', q_ContainerName = ''nginx'',
       StartTime = \<lparr>abs_ns = 86399000000000, loc = 0\<rparr>,
       EndTime = \<lparr>abs_ns = 86399999999999, loc = 0\<rparr>\<rparr>,
      \<lparr>q_Namespace = ''ns'', q_PodName = ''nginx-abcde'', q_ContainerName = ''nginx'',
       StartTime = \<lparr>abs_ns = 86400000000000, loc = 0\<rparr>,
       EndTime = \<lparr>abs_ns = 86401000000000, loc = 0\<rparr>\<rparr>]"
    by (simp add: Split_def divideByDays_def date_def Truncate_def Hour_def dayLoop.simps
        Before_def Add_def Nanosecond_def)
  have answers: "driver_answers (\<lambda>t. ''day'') ?drv ?opts (Split ?q) 0 =
     ([Inr [fmupd ''time'' (VTime \<lparr>abs_ns = 86399000000000, loc = 0\<rparr>)
              (fmupd ''message'' (VText ''first'') fmempty),
            fmupd ''time'' (VTime \<lparr>abs_ns = 86399999999999, loc = 0\<rparr>)
              (fmupd ''message'' (VText ''last'') fmempty)],
       Inr [fmupd ''time'' (VTime \<lparr>abs_ns = 86400000000000, loc = 0\<rparr>)
              (fmupd ''message'' (VText ''first'') fmempty),
            fmupd ''time'' (VTime \<lparr>abs_ns = 86401000000000, loc = 0\<rparr>)
              (fmupd ''message'' (VText ''last'') fmempty)]], 2)"
    unfolding split by simp
  have h: "list_all2 answer_in_window (Split ?q)
             (fst (driver_answers (\<lambda>t. ''day'') ?drv ?opts (Split ?q) 0))"
    unfolding answers unfolding split
    by (simp add: answer_in_window_def rows_in_window_def row_in_window_def row_instant_def)
  from Query_rows_ascending [OF h] obtain rows where
    r: "LogStore_Query (\<lambda>t. ''day'') ?drv ?opts ?q 0
          = (Returned (Inr \<lparr>LogRows = rows\<rparr>),
             snd (driver_answers (\<lambda>t. ''day'') ?drv ?opts (Split ?q) 0))"
    and m: "map Some rows
          = map asLogRow
              (concat (map answer_rows
                 (fst (driver_answers (\<lambda>t. ''day'') ?drv ?opts (Split ?q) 0))))"
    by blast
  from m have "rows =
          [\<lparr>row_Time = \<lparr>abs_ns = 86399000000000, loc = 0\<rparr>, row_Log = ''first''\<rparr>,
           \<lparr>row_Time = \<lparr>abs_ns = 86399999999999, loc = 0\<rparr>, row_Log = ''last''\<rparr>,
           \<lparr>row_Time = \<lparr>abs_ns = 86400000000000, loc = 0\<rparr>, row_Log = ''first''\<rparr>,
           \<lparr>row_Time = \<lparr>abs_ns = 86401000000000, loc = 0\<rparr>, row_Log = ''last''\<rparr>]"
    unfolding answers by (simp add: answer_rows_def asLogRow_def map_eq_Cons_conv)
  with r show ?thesis unfolding answers by simp
qed

section \<open>Periods whose endpoints carry different locations\<close>

text \<open>
  C1, at an input where the code departs from it. The period runs from
  2018-05-01T10:00:00+02:00 (08:00 UTC, in a fixed zone, location 1) to
  2018-05-01T12:00:00Z (location UTC): start is before end and both fall on the same UTC
  date, so the claim has \<^verbatim>\<open>divideByDays\<close> return the one original period unchanged.
  The comparison \<^verbatim>\<open>date(p.start) == date(p.end)\<close> compares the location pointers too
  and fails, the loop does not run, and the result is the one period from midnight UTC to
  the end: its start is not the start of the period, and it covers three times the span.
\<close>

theorem divideByDays_mixed_locations:
  "divideByDays
     \<lparr>p_start = \<lparr>abs_ns = 736814 * 86400000000000 + 8 * 3600000000000, loc = 1\<rparr>,
      p_end = \<lparr>abs_ns = 736814 * 86400000000000 + 12 * 3600000000000, loc = 0\<rparr>\<rparr>
   = [\<lparr>p_start = \<lparr>abs_ns = 736814 * 86400000000000, loc = 0\<rparr>,
       p_end = \<lparr>abs_ns = 736814 * 86400000000000 + 12 * 3600000000000, loc = 0\<rparr>\<rparr>]"
  by (simp add: divideByDays_def date_def Truncate_def Hour_def dayLoop.simps Before_def)

text \<open>
  C2, at the query with the same two timestamps. The query is valid, and
  \<^verbatim>\<open>Split\<close> produces one sub-query whose window starts at midnight UTC instead of the
  query's start time: the sub-queries do not cover exactly [StartTime, EndTime].
\<close>

theorem Split_mixed_locations:
  "Split
     \<lparr>q_Namespace = ''ns'', q_PodName = ''nginx-abcde'', q_ContainerName = ''nginx'',
      StartTime = \<lparr>abs_ns = 736814 * 86400000000000 + 8 * 3600000000000, loc = 1\<rparr>,
      EndTime = \<lparr>abs_ns = 736814 * 86400000000000 + 12 * 3600000000000, loc = 0\<rparr>\<rparr>
   = [\<lparr>q_Namespace = ''ns'', q_PodName = ''nginx-abcde'', q_ContainerName = ''nginx'',
       StartTime = \<lparr>abs_ns = 736814 * 86400000000000, loc = 0\<rparr>,
       EndTime = \<lparr>abs_ns = 736814 * 86400000000000 + 12 * 3600000000000, loc = 0\<rparr>\<rparr>]
   \<and> Query_Validate
     \<lparr>q_Namespace = ''ns'', q_PodName = ''nginx-abcde'', q_ContainerName = ''nginx'',
      StartTime = \<lparr>abs_ns = 736814 * 86400000000000 + 8 * 3600000000000, loc = 1\<rparr>,
      EndTime = \<lparr>abs_ns = 736814 * 86400000000000 + 12 * 3600000000000, loc = 0\<rparr>\<rparr> = None"
  by (simp add: Split_def divideByDays_def date_def Truncate_def Hour_def dayLoop.simps Before_def
      Query_Validate_def IsZero_def)

section \<open>The request metrics\<close>

lemma Intercept_same:
  "TotalRequests (Intercept fo d e mw) d = Some (index (TotalRequests mw) 0 d + 1)"
  "SumResponseTime (Intercept fo d e mw) d
     = Some (fadd fo (index (SumResponseTime mw) (fzero fo) d) e)"
  "AvgResponseTime (Intercept fo d e mw) d
     = Some (fdiv fo (fadd fo (index (SumResponseTime mw) (fzero fo) d) e)
                     (of_int64 fo (index (TotalRequests mw) 0 d + 1)))"
  by (simp_all add: Intercept_def Let_def index_def)

lemma Intercept_other:
  "d' \<noteq> d \<Longrightarrow> TotalRequests (Intercept fo d e mw) d' = TotalRequests mw d'"
  "d' \<noteq> d \<Longrightarrow> SumResponseTime (Intercept fo d e mw) d' = SumResponseTime mw d'"
  "d' \<noteq> d \<Longrightarrow> AvgResponseTime (Intercept fo d e mw) d' = AvgResponseTime mw d'"
  by (simp_all add: Intercept_def Let_def)

lemma after_completions_snoc:
  "after_completions fo (obs @ [(d, e)]) = Intercept fo d e (after_completions fo obs)"
  by (simp add: after_completions_def)

lemma elapsed_of_snoc:
  "elapsed_of d' (obs @ [(d, e)]) = (if d = d' then elapsed_of d' obs @ [e] else elapsed_of d' obs)"
  by (simp add: elapsed_of_def)

lemma float_sum_snoc: "float_sum fo (es @ [e]) = fadd fo (float_sum fo es) e"
  by (simp add: float_sum_def)

lemma after_completions_state:
  "(elapsed_of d obs = [] \<longrightarrow>
      TotalRequests (after_completions fo obs) d = None
      \<and> SumResponseTime (after_completions fo obs) d = None
      \<and> AvgResponseTime (after_completions fo obs) d = None)
   \<and> (elapsed_of d obs \<noteq> [] \<longrightarrow>
      TotalRequests (after_completions fo obs) d = Some (of_nat (length (elapsed_of d obs)))
      \<and> SumResponseTime (after_completions fo obs) d = Some (float_sum fo (elapsed_of d obs))
      \<and> AvgResponseTime (after_completions fo obs) d
          = Some (fdiv fo (float_sum fo (elapsed_of d obs))
                          (of_int64 fo (of_nat (length (elapsed_of d obs))))))"
proof (induction obs rule: rev_induct)
  case Nil
  show ?case
    by (simp add: after_completions_def NewMetricsMiddleware_def elapsed_of_def)
next
  case (snoc ob obs)
  obtain d' e where ob: "ob = (d', e)" by (cases ob)
  show ?case
  proof (cases "d' = d")
    case False
    then have "d \<noteq> d'" by simp
    with snoc show ?thesis
      unfolding ob after_completions_snoc elapsed_of_snoc
      by (simp add: Intercept_other)
  next
    case True
    show ?thesis
    proof (cases "elapsed_of d obs = []")
      case True
      with snoc have "index (TotalRequests (after_completions fo obs)) 0 d = 0"
        "index (SumResponseTime (after_completions fo obs)) (fzero fo) d = fzero fo"
        by (simp_all add: index_def)
      with True \<open>d' = d\<close> show ?thesis
        unfolding ob after_completions_snoc elapsed_of_snoc
        by (simp add: Intercept_same float_sum_def)
    next
      case False
      with snoc have "index (TotalRequests (after_completions fo obs)) 0 d
            = of_nat (length (elapsed_of d obs))"
        "index (SumResponseTime (after_completions fo obs)) (fzero fo) d
            = float_sum fo (elapsed_of d obs)"
        by (simp_all add: index_def)
      with False \<open>d' = d\<close> show ?thesis
        unfolding ob after_completions_snoc elapsed_of_snoc
        by (simp add: Intercept_same float_sum_snoc add.commute)
    qed
  qed
qed

lemma sint_count: "n < 2 ^ 63 \<Longrightarrow> sint (of_nat n :: 64 word) = int n"
proof -
  assume "n < 2 ^ 63"
  then have "int n < 2 ^ 63"
    by (metis of_nat_less_iff of_nat_numeral of_nat_power)
  then have "signed_take_bit 63 (int n) = int n"
    by (intro signed_take_bit_int_eq_self) simp_all
  then show ?thesis
    by (simp add: signed_of_nat)
qed

text \<open>
  C9. After any sequence of request completions on a new middleware, for every dimension
  triple (method, path, status code) that has been observed, with M the number of
  completions observed with these dimensions: \<^verbatim>\<open>TotalRequests\<close> holds M (as an \<^verbatim>\<open>int64\<close>,
  which reads back as M while M is below 2^63), \<^verbatim>\<open>SumResponseTime\<close> holds the sum of
  their elapsed times, added in float arithmetic in the order of completion starting from
  0, and \<^verbatim>\<open>AvgResponseTime\<close> holds that sum divided by \<^verbatim>\<open>float64(M)\<close>. One completion
  changes no entry of any of the three maps for other dimensions.
\<close>

theorem metrics_after_completions:
  "(elapsed_of d obs \<noteq> [] \<longrightarrow>
      TotalRequests (after_completions fo obs) d = Some (of_nat (length (elapsed_of d obs)))
      \<and> (length (elapsed_of d obs) < 2 ^ 63 \<longrightarrow>
           sint (of_nat (length (elapsed_of d obs)) :: 64 word) = int (length (elapsed_of d obs)))
      \<and> SumResponseTime (after_completions fo obs) d = Some (float_sum fo (elapsed_of d obs))
      \<and> AvgResponseTime (after_completions fo obs) d
          = Some (fdiv fo (float_sum fo (elapsed_of d obs))
                          (of_int64 fo (of_nat (length (elapsed_of d obs))))))
   \<and> (\<forall>d'. d' \<noteq> d \<longrightarrow>
         TotalRequests (Intercept fo d e mw) d' = TotalRequests mw d'
         \<and> SumResponseTime (Intercept fo d e mw) d' = SumResponseTime mw d'
         \<and> AvgResponseTime (Intercept fo d e mw) d' = AvgResponseTime mw d')"
  using after_completions_state [of d obs fo] sint_count [of "length (elapsed_of d obs)"]
  by (simp add: Intercept_other)

theorem metrics_after_completions_witness:
  "TotalRequests
     (after_completions \<lparr>fzero = 0, fadd = (+), fdiv = (/), of_int64 = (\<lambda>w. real_of_int (sint w))\<rparr>
        [(\<lparr>Method = ''POST'', Path = ''/write'', StatusCode = 200\<rparr>, 1 / 2),
         (\<lparr>Method = ''GET'', Path = ''/metrics'', StatusCode = 200\<rparr>, 1),
         (\<lparr>Method = ''POST'', Path = ''/write'', StatusCode = 200\<rparr>, 3 / 2)])
     \<lparr>Method = ''POST'', Path = ''/write'', StatusCode = 200\<rparr> = Some 2
   \<and> SumResponseTime
     (after_completions \<lparr>fzero = 0, fadd = (+), fdiv = (/), of_int64 = (\<lambda>w. real_of_int (sint w))\<rparr>
        [(\<lparr>Method = ''POST'', Path = ''/write'', StatusCode = 200\<rparr>, 1 / 2),
         (\<lparr>Method = ''GET'', Path = ''/metrics'', StatusCode = 200\<rparr>, 1),
         (\<lparr>Method = ''POST'', Path = ''/write'', StatusCode = 200\<rparr>, 3 / 2)])
     \<lparr>Method = ''POST'', Path = ''/write'', StatusCode = 200\<rparr> = Some 2
   \<and> AvgResponseTime
     (after_completions \<lparr>fzero = 0, fadd = (+), fdiv = (/), of_int64 = (\<lambda>w. real_of_int (sint w))\<rparr>
        [(\<lparr>Method = ''POST'', Path = ''/write'', StatusCode = 200\<rparr>, 1 / 2),
         (\<lparr>Method = ''GET'', Path = ''/metrics'', StatusCode = 200\<rparr>, 1),
         (\<lparr>Method = ''POST'', Path = ''/write'', StatusCode = 200\<rparr>, 3 / 2)])
     \<lparr>Method = ''POST'', Path = ''/write'', StatusCode = 200\<rparr> = Some 1"
proof -
  let ?fo = "\<lparr>fzero = 0, fadd = (+), fdiv = (/), of_int64 = (\<lambda>w. real_of_int (sint w))\<rparr>"
  let ?d = "\<lparr>Method = ''POST'', Path = ''/write'', StatusCode = 200\<rparr>"
  let ?obs = "[(?d, 1 / 2 :: real),
         (\<lparr>Method = ''GET'', Path = ''/metrics'', StatusCode = 200\<rparr>, 1),
         (?d, 3 / 2)]"
  have e: "elapsed_of ?d ?obs = [1 / 2, 3 / 2]"
    by (simp add: elapsed_of_def)
  have s: "float_sum ?fo [1 / 2, 3 / 2] = 2"
    by (simp add: float_sum_def)
  show ?thesis
    using metrics_after_completions [of ?d ?obs ?fo]
    unfolding e s by simp
qed

section \<open>The writer pool\<close>

lemma write_stopped:
  assumes "\<not> started p"
  shows "pool_write stmt args p
           = Written (nextChan p)
               (p\<lparr>nextChan := Suc (nextChan p),
                  chans := (chans p)(nextChan p := [Some rejected])\<rparr>)"
  using assms by (simp add: pool_write_def Let_def)

text \<open>
  C5. A call of \<^verbatim>\<open>writerPool.write\<close> on a stopped pool returns a new result channel
  whose single slot holds the error "write rejected: writerPool has been stopped"; the
  call places nothing on the work channel, whose contents are what they were, and leaves
  every other result channel as it was. In a well-formed pool no operation on the work
  channel refers to the new channel, so no writer will ever send on it: it yields the
  rejection and nothing else.
\<close>

theorem write_rejected_when_stopped:
  assumes "\<not> started p"
  shows "\<exists>p'. pool_write stmt args p = Written (nextChan p) p'
           \<and> chans p' (nextChan p)
               = [Some (Errorf ''write rejected: writerPool has been stopped'')]
           \<and> workChan p' = workChan p
           \<and> (\<forall>ch. ch \<noteq> nextChan p \<longrightarrow> chans p' ch = chans p ch)
           \<and> (pool_wf p \<longrightarrow> nextChan p \<notin> resultChan ` set (workChan p') \<and> pool_wf p')"
proof -
  have "pool_wf p \<Longrightarrow> nextChan p \<notin> resultChan ` set (workChan p)"
    by (auto simp: pool_wf_def list_all_iff)
  moreover have "pool_wf p \<Longrightarrow>
      pool_wf (p\<lparr>nextChan := Suc (nextChan p),
                 chans := (chans p)(nextChan p := [Some rejected])\<rparr>)"
    by (fastforce simp: pool_wf_def list_all_iff less_Suc_eq)
  ultimately show ?thesis
    unfolding write_stopped [OF assms] by (simp add: rejected_def)
qed

theorem write_rejected_when_stopped_witness:
  "\<exists>p'. pool_write ''INSERT INTO ks.log'' [VText ''default'']
          \<lparr>cassandraDriver = (),
           workChan = [\<lparr>op_insert = \<lparr>insertStatement = ''INSERT INTO ks.log'',
                                      placeholders = [VText ''kube-system'']\<rparr>,
                        resultChan = 0\<rparr>],
           bufferSize = 1,
           writers = [\<lparr>stopChan_closed = True, exited = False\<rparr>],
           started = False, chans = (\<lambda>_. []), nextChan = 1\<rparr> = Written 1 p'
        \<and> chans p' 1 = [Some (Errorf ''write rejected: writerPool has been stopped'')]
        \<and> workChan p' = [\<lparr>op_insert = \<lparr>insertStatement = ''INSERT INTO ks.log'',
                                         placeholders = [VText ''kube-system'']\<rparr>,
                           resultChan = 0\<rparr>]
        \<and> chans p' 0 = []
        \<and> 1 \<notin> resultChan ` set (workChan p')
        \<and> pool_wf p'"
proof -
  let ?p = "\<lparr>cassandraDriver = (),
           workChan = [\<lparr>op_insert = \<lparr>insertStatement = ''INSERT INTO ks.log'',
                                      placeholders = [VText ''kube-system'']\<rparr>,
                        resultChan = 0\<rparr>],
           bufferSize = 1,
           writers = [\<lparr>stopChan_closed = True, exited = False\<rparr>],
           started = False, chans = (\<lambda>_. []), nextChan = 1\<rparr>"
  have s: "\<not> started ?p" by simp
  have wf: "pool_wf ?p" by (simp add: pool_wf_def)
  from write_rejected_when_stopped [OF s, of "''INSERT INTO ks.log''" "[VText ''default'']"]
  obtain p' where p': "pool_write ''INSERT INTO ks.log'' [VText ''default''] ?p = Written 1 p'"
    "chans p' 1 = [Some (Errorf ''write rejected: writerPool has been stopped'')]"
    "workChan p' = workChan ?p"
    "\<forall>ch. ch \<noteq> 1 \<longrightarrow> chans p' ch = chans ?p ch"
    "pool_wf ?p \<longrightarrow> 1 \<notin> resultChan ` set (workChan p') \<and> pool_wf p'"
    by auto
  from p'(4) have "chans p' 0 = []" by simp
  with p' wf show ?thesis
    by (intro exI [of _ p']) simp
qed








section \<open>Writing a batch\<close>



















section \<open>The writers and the result channels\<close>

lemma pool_wf_fresh: "pool_wf p \<Longrightarrow> nextChan p \<notin> resultChan ` set (workChan p)"
  by (auto simp: pool_wf_def list_all_iff)

lemma pool_write_wf:
  assumes "pool_wf p"
  shows "case pool_write stmt args p of
           Written ch p' \<Rightarrow> pool_wf p'
         | Sending op p' \<Rightarrow>
             pool_wf p' \<and> resultChan op < nextChan p' \<and> chans p' (resultChan op) = []
             \<and> resultChan op \<notin> resultChan ` set (workChan p')"
proof -
  let ?c = "nextChan p"
  have fresh: "\<forall>op \<in> set (workChan p). resultChan op < ?c \<and> chans p (resultChan op) = []"
    and dist: "distinct (map resultChan (workChan p))"
    using assms by (simp_all add: pool_wf_def list_all_iff)
  from fresh have ne: "\<forall>op \<in> set (workChan p). resultChan op \<noteq> ?c"
    by auto
  show ?thesis
    using fresh dist ne
    by (auto simp: pool_write_def Let_def pool_wf_def list_all_iff less_Suc_eq)
qed

lemma execute_op_Some:
  assumes "chans p (resultChan op) = []"
  shows "\<exists>result drv'. execute_op drvExecute op p
     = Some (p\<lparr>cassandraDriver := drv', chans := (chans p)(resultChan op := [result])\<rparr>)"
proof -
  obtain result drv' where
    d: "drvExecute (cassandraDriver p) (insertStatement (op_insert op))
          (placeholders (op_insert op)) = (result, drv')"
    by (cases "drvExecute (cassandraDriver p) (insertStatement (op_insert op))
          (placeholders (op_insert op))")
  have "execute_op drvExecute op p
     = Some (p\<lparr>cassandraDriver := drv', chans := (chans p)(resultChan op := [result])\<rparr>)"
    by (simp add: execute_op_def assms d)
  then show ?thesis by blast
qed

lemma execute_op_SomeD:
  "execute_op drvExecute op p = Some p' \<Longrightarrow>
   chans p (resultChan op) = []
   \<and> (\<exists>result drv'. p' = p\<lparr>cassandraDriver := drv',
                               chans := (chans p)(resultChan op := [result])\<rparr>)"
  by (auto simp: execute_op_def split: list.splits prod.splits)

lemma Write_step_wf:
  assumes wf: "config_wf cfg" and st: "Write_step fmtDate opts cfg = Some cfg'"
  shows "config_wf cfg'"
proof (cases "pc (call cfg)")
  case (Inserting es)
  show ?thesis
  proof (cases es)
    case Nil
    with wf st Inserting show ?thesis
      by (auto simp: Write_step_def Let_def config_wf_def)
  next
    case (Cons e es')
    from wf have "pool_wf (pool cfg)" by (simp add: config_wf_def)
    from pool_write_wf [OF this,
        of "insertStatement (entry_insert fmtDate opts e)"
           "placeholders (entry_insert fmtDate opts e)"]
    show ?thesis
      using st Inserting Cons
      by (auto simp: Write_step_def Let_def config_wf_def LogStore_insert_def
          split: write_result.splits)
  qed
next
  case (Blocked_insert op es)
  with wf st show ?thesis
    by (auto simp: Write_step_def Let_def config_wf_def complete_send_def pool_wf_def
        list_all_iff split: if_splits)
next
  case (Awaiting chs)
  show ?thesis
  proof (cases chs)
    case Nil
    with wf st Awaiting show ?thesis
      by (auto simp: Write_step_def Let_def config_wf_def)
  next
    case (Cons ch chs')
    with wf st Awaiting show ?thesis
      by (auto simp: Write_step_def Let_def config_wf_def pool_wf_def list_all_iff
          split: list.splits option.splits)
  qed
next
  case (Done r)
  with st show ?thesis
    by (simp add: Write_step_def Let_def)
qed

lemma writer_step_wf:
  assumes wf: "config_wf cfg" and st: "writer_step drvExecute w cfg = Some cfg'"
  shows "config_wf cfg'"
proof (cases "workChan (pool cfg)")
  case (Cons op ops)
  with st obtain p' where
    ex: "execute_op drvExecute op ((pool cfg)\<lparr>workChan := ops\<rparr>) = Some p'"
    and cfg': "cfg' = cfg\<lparr>pool := p'\<rparr>"
    by (auto simp: writer_step_def split: if_splits)
  from execute_op_SomeD [OF ex] obtain result drv' where
    p': "p' = (pool cfg)\<lparr>workChan := ops, cassandraDriver := drv',
                          chans := (chans (pool cfg))(resultChan op := [result])\<rparr>"
    by auto
  from wf Cons have "resultChan op \<notin> resultChan ` set ops"
    by (simp add: config_wf_def pool_wf_def)
  then have "\<forall>opa \<in> set ops. resultChan opa \<noteq> resultChan op"
    by (metis imageI)
  with wf Cons show ?thesis
    unfolding cfg' p'
    by (auto simp: config_wf_def pool_wf_def list_all_iff split: Write_pc.splits)
next
  case Nil
  show ?thesis
  proof (cases "pc (call cfg)")
    case (Blocked_insert op es)
    with st Nil obtain p' where
      ex: "execute_op drvExecute op (pool cfg) = Some p'"
      and cfg': "cfg' = \<lparr>pool = p',
                 call = (call cfg)\<lparr>resultChannels := resultChannels (call cfg) @ [resultChan op],
                                   pc := Inserting es\<rparr>\<rparr>"
      by (auto simp: writer_step_def split: if_splits)
    from execute_op_SomeD [OF ex] obtain result drv' where
      p': "p' = (pool cfg)\<lparr>cassandraDriver := drv',
                            chans := (chans (pool cfg))(resultChan op := [result])\<rparr>"
      by auto
    from wf Nil show ?thesis
      unfolding cfg' p' by (simp add: config_wf_def pool_wf_def)
  qed (use st Nil in \<open>simp_all add: writer_step_def split: if_splits\<close>)
qed

lemma writer_exit_wf:
  assumes wf: "config_wf cfg" and st: "writer_exit w cfg = Some cfg'"
  shows "config_wf cfg'"
  using assms
  by (auto simp: writer_exit_def config_wf_def pool_wf_def split: if_splits Write_pc.splits)

lemma run_wf:
  assumes "config_wf cfg" and "run fmtDate opts drvExecute evs cfg = Some cfg'"
  shows "config_wf cfg'"
  using assms
proof (induction evs arbitrary: cfg)
  case Nil
  then show ?case by simp
next
  case (Cons ev evs)
  from Cons.prems(2) obtain cfg1 where s: "step fmtDate opts drvExecute ev cfg = Some cfg1"
    and r: "run fmtDate opts drvExecute evs cfg1 = Some cfg'"
    by (auto split: option.splits)
  from Cons.prems(1) s have "config_wf cfg1"
    by (cases ev) (auto intro: Write_step_wf writer_step_wf writer_exit_wf)
  from Cons.IH [OF this r] show ?case .
qed

lemma writer_can_run:
  assumes c: "config_wf cfg"
    and w: "w < length (writers (pool cfg))" "\<not> exited (writers (pool cfg) ! w)"
    and op: "workChan (pool cfg) \<noteq> [] \<or> (\<exists>op es. pc (call cfg) = Blocked_insert op es)"
  shows "writer_step drvExecute w cfg \<noteq> None"
proof (cases "workChan (pool cfg)")
  case (Cons op ops)
  with c have "chans ((pool cfg)\<lparr>workChan := ops\<rparr>) (resultChan op) = []"
    by (simp add: config_wf_def pool_wf_def)
  from execute_op_Some [OF this, of drvExecute] show ?thesis
    using w Cons by (auto simp: writer_step_def)
next
  case Nil
  with op obtain op es where b: "pc (call cfg) = Blocked_insert op es"
    by auto
  with c have "chans (pool cfg) (resultChan op) = []"
    by (simp add: config_wf_def)
  from execute_op_Some [OF this, of drvExecute] show ?thesis
    using w Nil b by (auto simp: writer_step_def)
qed

text \<open>
  No writer ever waits on a result channel. In a run of \<^verbatim>\<open>Write\<close> that starts from a
  well-formed pool, a writer that has not returned and has an operation to receive (one on
  the work channel, or the one \<^verbatim>\<open>Write\<close> is waiting to send) can always take its step:
  the result channel it sends to is empty. This is why \<^verbatim>\<open>Write\<close> need not receive from
  the channels that remain after an error.
\<close>

lemma writers_never_wait:
  assumes wf: "pool_wf p"
    and r: "run fmtDate opts drvExecute evs \<lparr>pool = p, call = Write_start entries\<rparr> = Some cfg"
    and w: "w < length (writers (pool cfg))" "\<not> exited (writers (pool cfg) ! w)"
    and op: "workChan (pool cfg) \<noteq> [] \<or> (\<exists>op es. pc (call cfg) = Blocked_insert op es)"
  shows "writer_step drvExecute w cfg \<noteq> None"
proof -
  have "config_wf \<lparr>pool = p, call = Write_start entries\<rparr>"
    using wf by (simp add: config_wf_def Write_start_def)
  from run_wf [OF this r] have c: "config_wf cfg" .
  from writer_can_run [OF c w op] show ?thesis .
qed

section \<open>Termination of a batch write\<close>























end
